theory Spec2Isabelle
  imports Complex_Main "HOL-Library.Log_Nat"
begin

section \<open>DepthVision: the depth-displaced 3D view component (ThreeDeeCanvas.tsx)\<close>

text \<open>
  The component keeps its three.js objects in React refs and mutates them from effects,
  promise handlers and animation-frame callbacks. The embedding is by explicit state
  passing: one record holds every ref and every piece of React state of the component,
  together with the part of the environment the code acts on (GPU resources that were
  created and not yet disposed, registered listeners, scheduled frame callbacks, console
  output, downloads and the signals sent to the host). \<open>Date.now()\<close> is an integer
  number of milliseconds. The divisions that decide the tessellation of the plane are
  the divisions of JavaScript numbers, that is of IEEE doubles; the camera positions and
  the yaw of the recording, where no branch of the code depends on a rounding, are real
  numbers.
\<close>

subsection \<open>three.js objects\<close>

type_synonym vec3 = "real \<times> real \<times> real"

record texture =
  tex_id :: nat
  image_width :: nat
  image_height :: nat

text \<open>The parameters of a \<open>THREE.PlaneGeometry\<close>.\<close>

record geometry =
  geo_id :: nat
  width :: real
  height :: real
  widthSegments :: int
  heightSegments :: int

text \<open>A \<open>THREE.MeshStandardMaterial\<close>; field \<open>map\<close> of the source is \<open>map_tex\<close> here.\<close>

record material =
  mat_id :: nat
  map_tex :: "texture option"
  displacementMap :: "texture option"
  displacementScale :: real
  doubleSide :: bool

record mesh =
  mesh_id :: nat
  geometry :: geometry
  material :: material
  rotation_y :: real

datatype object3d = AmbientLight | DirectionalLight | MeshObject mesh

record scene =
  background :: nat
  children :: "object3d list"

record camera =
  fov :: real
  aspect :: real
  position :: vec3

text \<open>
  The state of an \<open>OrbitControls\<close> object that the component reads or writes: the orbit
  target, the damping settings, the distance clamps, the state saved at construction
  (used by \<open>reset\<close>) and the dolly scale that is pending until the next \<open>update\<close>.
\<close>

record controls =
  target :: vec3
  enableDamping :: bool
  dampingFactor :: real
  minDistance :: real
  maxDistance :: "real option"
  target0 :: vec3
  position0 :: vec3
  scale :: real

record renderer =
  size :: "nat \<times> nat"

datatype recorder_state = Inactive | Recording | Paused | Stopped | Destroyed

record recorder =
  rstate :: recorder_state

subsection \<open>The component state\<close>

record canvas =
  mountRef :: "(nat \<times> nat) option"
  rendererRef :: "renderer option"
  sceneRef :: "scene option"
  cameraRef :: "camera option"
  controlsRef :: "controls option"
  meshRef :: "mesh option"
  recorderRef :: "recorder option"
  isRecording :: bool
  isLoadingAssets :: bool
  aspectRatio :: real
  next_id :: nat
  gpu_live :: "nat list"
  pending_loads :: nat
  console_errors :: nat
  resize_listeners :: nat
  has_cleanup :: bool
  animate_pending :: nat
  frames :: nat
  recording_tick :: "(real \<times> int) option"
  stop_pending :: nat
  downloads :: "string list"
  export_signals :: "bool list"

text \<open>
  \<open>mountRef\<close> holds the client width and height of the mount element when it is
  attached. \<open>next_id\<close> is the supply of object identities; \<open>gpu_live\<close> lists the
  geometries, materials and textures that were created and not disposed.
  \<open>pending_loads\<close> counts the \<open>Promise.all\<close> joins that are still in flight,
  \<open>animate_pending\<close> the scheduled \<open>requestAnimationFrame(animate)\<close> callbacks,
  \<open>recording_tick\<close> the scheduled \<open>animateRecording\<close> callback with the values its
  closure captured (\<open>initialRotationY\<close>, \<open>startTime\<close>), and \<open>stop_pending\<close> the
  \<open>stopRecording\<close> callbacks the recorder still has to invoke.
\<close>

definition initial_canvas :: canvas where
  "initial_canvas =
     \<lparr>mountRef = None, rendererRef = None, sceneRef = None, cameraRef = None,
      controlsRef = None, meshRef = None, recorderRef = None, isRecording = False,
      isLoadingAssets = False, aspectRatio = 16 / 9, next_id = 0, gpu_live = [],
      pending_loads = 0, console_errors = 0, resize_listeners = 0, has_cleanup = False,
      animate_pending = 0, frames = 0, recording_tick = None, stop_pending = 0,
      downloads = [], export_signals = []\<rparr>"

definition mount :: "nat \<times> nat \<Rightarrow> canvas \<Rightarrow> canvas" where
  "mount vp s = s\<lparr>mountRef := Some vp\<rparr>"

subsection \<open>Disposal: cleanupScene\<close>

definition dispose :: "nat \<Rightarrow> canvas \<Rightarrow> canvas" where
  "dispose r s = s\<lparr>gpu_live := removeAll r (gpu_live s)\<rparr>"

definition is_mesh :: "nat \<Rightarrow> object3d \<Rightarrow> bool" where
  "is_mesh i ob = (case ob of MeshObject m \<Rightarrow> mesh_id m = i | _ \<Rightarrow> False)"

text \<open>\<open>scene.remove(mesh)\<close> takes the object with that identity out of the children.\<close>

definition scene_remove :: "mesh \<Rightarrow> scene \<Rightarrow> scene" where
  "scene_remove m sc = sc\<lparr>children := filter (\<lambda>ob. \<not> is_mesh (mesh_id m) ob) (children sc)\<rparr>"

definition scene_add :: "object3d \<Rightarrow> scene \<Rightarrow> scene" where
  "scene_add ob sc = sc\<lparr>children := children sc @ [ob]\<rparr>"

definition dispose_texture :: "texture option \<Rightarrow> canvas \<Rightarrow> canvas" where
  "dispose_texture t s = (case t of None \<Rightarrow> s | Some x \<Rightarrow> dispose (tex_id x) s)"

text \<open>
  \<open>cleanupScene\<close> (lines 31-43). A three.js mesh always has a geometry and a material,
  so the two truthiness tests on them are taken; the tests on the two texture slots are
  the \<open>None\<close> cases of \<open>dispose_texture\<close>.
\<close>

definition cleanupScene :: "canvas \<Rightarrow> canvas" where
  "cleanupScene s =
     (case meshRef s of
        None \<Rightarrow> s
      | Some m \<Rightarrow>
          (case sceneRef s of
             None \<Rightarrow> s
           | Some sc \<Rightarrow>
               (let s1 = s\<lparr>sceneRef := Some (scene_remove m sc)\<rparr>;
                    s2 = dispose (geo_id (geometry m)) s1;
                    s3 = dispose_texture (map_tex (material m)) s2;
                    s4 = dispose_texture (displacementMap (material m)) s3;
                    s5 = dispose (mat_id (material m)) s4
                in s5\<lparr>meshRef := None\<rparr>)))"

definition scene_meshes :: "canvas \<Rightarrow> mesh list" where
  "scene_meshes s =
     (case sceneRef s of
        None \<Rightarrow> []
      | Some sc \<Rightarrow> concat (map (\<lambda>ob. case ob of MeshObject m \<Rightarrow> [m] | _ \<Rightarrow> []) (children sc)))"

subsection \<open>Vectors, the orbit controls and the render loop\<close>

definition vlength :: "vec3 \<Rightarrow> real" where
  "vlength v = (case v of (x, y, z) \<Rightarrow> sqrt (x\<^sup>2 + y\<^sup>2 + z\<^sup>2))"

definition vsub :: "vec3 \<Rightarrow> vec3 \<Rightarrow> vec3" where
  "vsub a b = (case a of (x, y, z) \<Rightarrow> case b of (u, v, w) \<Rightarrow> (x - u, y - v, z - w))"

definition vadd :: "vec3 \<Rightarrow> vec3 \<Rightarrow> vec3" where
  "vadd a b = (case a of (x, y, z) \<Rightarrow> case b of (u, v, w) \<Rightarrow> (x + u, y + v, z + w))"

definition vscale :: "real \<Rightarrow> vec3 \<Rightarrow> vec3" where
  "vscale k a = (case a of (x, y, z) \<Rightarrow> (k * x, k * y, k * z))"

definition clamp_distance :: "controls \<Rightarrow> real \<Rightarrow> real" where
  "clamp_distance c r =
     max (minDistance c) (case maxDistance c of None \<Rightarrow> r | Some hi \<Rightarrow> min hi r)"

text \<open>
  Modelled from the spec: the dolly of the orbit controls. \<open>OrbitControls.dollyOut\<close> and
  \<open>OrbitControls.update\<close> belong to the three.js library, which is not among the
  repository's sources. Following the spec (a dolly moves the camera along its view
  direction, a factor above 1 zooms in, below 1 zooms out, the distance is clamped) and
  the comment at line 189, \<open>dollyOut f\<close> divides the pending scale by \<open>f\<close>, and
  \<open>update\<close> multiplies the distance from the target by the pending scale, clamps it to
  \<open>[minDistance, maxDistance]\<close> and keeps the direction. Rotation, panning and damping
  need pointer input and are left out; a camera sitting on the target stays there.
\<close>

definition dollyOut :: "real \<Rightarrow> controls \<Rightarrow> controls" where
  "dollyOut f c = c\<lparr>scale := scale c / f\<rparr>"

definition controls_update :: "camera \<Rightarrow> controls \<Rightarrow> camera \<times> controls" where
  "controls_update cam c =
     (let offset = vsub (position cam) (target c);
          r = vlength offset;
          r' = clamp_distance c (r * scale c);
          offset' = (if r = 0 then offset else vscale (r' / r) offset)
      in (cam\<lparr>position := vadd (target c) offset'\<rparr>, c\<lparr>scale := 1\<rparr>))"

text \<open>
  Modelled from the spec: \<open>OrbitControls.reset\<close> (three.js) restores the target and the
  camera position saved when the controls were made; the source's comment at line 163
  reads "Resets target to 0,0,0 and position".
\<close>

definition controls_reset :: "camera \<Rightarrow> controls \<Rightarrow> camera \<times> controls" where
  "controls_reset cam c =
     controls_update (cam\<lparr>position := position0 c\<rparr>) (c\<lparr>target := target0 c\<rparr>)"

definition render :: "canvas \<Rightarrow> canvas" where
  "render s = s\<lparr>frames := Suc (frames s)\<rparr>"

definition update_controls :: "canvas \<Rightarrow> canvas" where
  "update_controls s =
     (case cameraRef s of
        None \<Rightarrow> s
      | Some cam \<Rightarrow>
          (case controlsRef s of
             None \<Rightarrow> s
           | Some c \<Rightarrow>
               (case controls_update cam c of
                  (cam', c') \<Rightarrow> s\<lparr>cameraRef := Some cam', controlsRef := Some c'\<rparr>)))"

text \<open>
  \<open>animate\<close> (lines 128-133): one run of the render loop's callback. It returns at once
  when one of the four refs is null, and otherwise schedules itself again.
\<close>

definition animate :: "canvas \<Rightarrow> canvas" where
  "animate s =
     (if rendererRef s = None \<or> sceneRef s = None \<or> cameraRef s = None \<or> controlsRef s = None
      then s
      else render (update_controls (s\<lparr>animate_pending := Suc (animate_pending s)\<rparr>)))"

text \<open>The browser runs one scheduled \<open>animate\<close> callback.\<close>

definition animation_frame :: "canvas \<Rightarrow> canvas" where
  "animation_frame s =
     (if animate_pending s = 0 then s
      else animate (s\<lparr>animate_pending := animate_pending s - 1\<rparr>))"

subsection \<open>The effect on the two input URIs\<close>

text \<open>JavaScript truthiness of \<open>string | null\<close>: null and the empty string are falsy.\<close>

definition truthy :: "string option \<Rightarrow> bool" where
  "truthy u = (case u of None \<Rightarrow> False | Some x \<Rightarrow> x \<noteq> [])"

text \<open>Lines 59-79: the scene, camera, renderer, lights and controls made on first use.\<close>

definition init_three :: "nat \<times> nat \<Rightarrow> canvas \<Rightarrow> canvas" where
  "init_three vp s =
     s\<lparr>sceneRef := Some \<lparr>background = 0xf0f4f8, children = [AmbientLight, DirectionalLight]\<rparr>,
       cameraRef := Some \<lparr>fov = 75, aspect = real (fst vp) / real (snd vp), position = (0, 0, 1.5)\<rparr>,
       rendererRef := Some \<lparr>size = vp\<rparr>,
       controlsRef := Some \<lparr>target = (0, 0, 0), enableDamping = True, dampingFactor = 0.05,
                             minDistance = 0, maxDistance = None, target0 = (0, 0, 0),
                             position0 = (0, 0, 1.5), scale = 1\<rparr>\<rparr>"

text \<open>Lines 81-86: the renderer exists already; bring its size and the camera up to date.\<close>

definition resize_view :: "nat \<times> nat \<Rightarrow> canvas \<Rightarrow> canvas" where
  "resize_view vp s =
     s\<lparr>rendererRef := map_option (\<lambda>r. r\<lparr>size := vp\<rparr>) (rendererRef s),
       cameraRef := map_option (\<lambda>cam. cam\<lparr>aspect := real (fst vp) / real (snd vp)\<rparr>) (cameraRef s)\<rparr>"

text \<open>
  The body of the effect (lines 45-143), up to the point where the two loads are in
  flight. Only the last branch returns a cleanup function.
\<close>

definition effect_run :: "string option \<Rightarrow> string option \<Rightarrow> canvas \<Rightarrow> canvas" where
  "effect_run originalImageUri depthMapUri s =
     (case mountRef s of
        None \<Rightarrow> s\<lparr>has_cleanup := False\<rparr>
      | Some currentMount \<Rightarrow>
          if \<not> truthy originalImageUri \<or> \<not> truthy depthMapUri then
            (let s1 = cleanupScene s;
                 s2 = (if rendererRef s1 = None \<or> sceneRef s1 = None \<or> cameraRef s1 = None
                       then s1 else render s1)
             in s2\<lparr>has_cleanup := False\<rparr>)
          else
            (let s1 = s\<lparr>isLoadingAssets := True\<rparr>;
                 s2 = (if rendererRef s1 = None then init_three currentMount s1
                       else resize_view currentMount s1);
                 s3 = cleanupScene s2;
                 s4 = s3\<lparr>pending_loads := Suc (pending_loads s3)\<rparr>;
                 s5 = animate s4
             in s5\<lparr>resize_listeners := Suc (resize_listeners s5), has_cleanup := True\<rparr>))"

text \<open>
  The cleanup the effect returns (lines 144-157): it removes the resize listener and
  nothing else; the rest of its body is commented out in the source.
\<close>

definition effect_cleanup :: "canvas \<Rightarrow> canvas" where
  "effect_cleanup s =
     (if has_cleanup s
      then s\<lparr>resize_listeners := resize_listeners s - 1, has_cleanup := False\<rparr>
      else s)"

text \<open>React on a change of the inputs: the previous cleanup, then the effect again.\<close>

definition set_inputs :: "string option \<Rightarrow> string option \<Rightarrow> canvas \<Rightarrow> canvas" where
  "set_inputs originalImageUri depthMapUri s =
     effect_run originalImageUri depthMapUri (effect_cleanup s)"

text \<open>React on unmount: the cleanup runs and the mount element is detached from its ref.\<close>

definition unmount :: "canvas \<Rightarrow> canvas" where
  "unmount s = (effect_cleanup s)\<lparr>mountRef := None\<rparr>"

subsection \<open>JavaScript numbers\<close>

text \<open>
  A JavaScript number is an IEEE double: a real of the form \<open>m * 2 ^ e\<close> with an integer
  \<open>m\<close> of at most 53 bits. \<open>binade x\<close> is the exponent \<open>e\<close> with
  \<open>2 ^ e \<le> x < 2 ^ (e + 1)\<close> for a positive \<open>x\<close>, computed from the bit length of the
  integer part, or of the reciprocal for \<open>x < 1\<close>; \<open>ulp x\<close> is the spacing of the doubles
  in that binade. \<open>to_double\<close> rounds a real to the nearest double, a tie going to the
  even significand, as every arithmetic operation of the language does. Overflow and
  subnormal numbers are left out: they are out of reach of quotients of image sizes,
  which are integers below \<open>2 ^ 32\<close>.
\<close>

definition binade :: "real \<Rightarrow> int" where
  "binade x =
     (if 1 \<le> x then bitlen \<lfloor>x\<rfloor> - 1 else - int (ceillog2 (nat \<lceil>1 / x\<rceil>)))"

definition ulp :: "real \<Rightarrow> real" where
  "ulp x = 2 powi (binade x - 52)"

definition round_half_even :: "real \<Rightarrow> int" where
  "round_half_even y =
     (let n = \<lfloor>y\<rfloor>; r = y - of_int n
      in if r < 1 / 2 then n else if 1 / 2 < r then n + 1 else if even n then n else n + 1)"

definition to_double :: "real \<Rightarrow> real" where
  "to_double x =
     (if x = 0 then 0
      else sgn x * (of_int (round_half_even (\<bar>x\<bar> / ulp \<bar>x\<bar>)) * ulp \<bar>x\<bar>))"

text \<open>The operator \<open>/\<close> on two numbers, for a divisor that is not zero.\<close>

definition fdiv :: "real \<Rightarrow> real \<Rightarrow> real" where
  "fdiv x y = to_double (x / y)"

text \<open>\<open>Math.round\<close>: the nearest integer, a tie going up.\<close>

definition js_round :: "real \<Rightarrow> int" where
  "js_round x = \<lfloor>x + 1 / 2\<rfloor>"

subsection \<open>Texture loading and the mesh builder\<close>

text \<open>A texture the loader has decoded, with the size of its image.\<close>

definition new_texture :: "nat \<times> nat \<Rightarrow> canvas \<Rightarrow> texture \<times> canvas" where
  "new_texture im s =
     (\<lparr>tex_id = next_id s, image_width = fst im, image_height = snd im\<rparr>,
      s\<lparr>next_id := Suc (next_id s), gpu_live := gpu_live s @ [next_id s]\<rparr>)"

definition new_PlaneGeometry :: "real \<Rightarrow> real \<Rightarrow> int \<Rightarrow> int \<Rightarrow> canvas \<Rightarrow> geometry \<times> canvas" where
  "new_PlaneGeometry w h ws hs s =
     (\<lparr>geo_id = next_id s, width = w, height = h, widthSegments = ws, heightSegments = hs\<rparr>,
      s\<lparr>next_id := Suc (next_id s), gpu_live := gpu_live s @ [next_id s]\<rparr>)"

definition new_MeshStandardMaterial :: "texture \<Rightarrow> texture \<Rightarrow> canvas \<Rightarrow> material \<times> canvas" where
  "new_MeshStandardMaterial t d s =
     (\<lparr>mat_id = next_id s, map_tex = Some t, displacementMap = Some d,
       displacementScale = 0.3, doubleSide = True\<rparr>,
      s\<lparr>next_id := Suc (next_id s), gpu_live := gpu_live s @ [next_id s]\<rparr>)"

definition new_Mesh :: "geometry \<Rightarrow> material \<Rightarrow> canvas \<Rightarrow> mesh \<times> canvas" where
  "new_Mesh g m s =
     (\<lparr>mesh_id = next_id s, geometry = g, material = m, rotation_y = 0\<rparr>,
      s\<lparr>next_id := Suc (next_id s)\<rparr>)"

text \<open>The catch handler (lines 123-126).\<close>

definition catch_handler :: "canvas \<Rightarrow> canvas" where
  "catch_handler s = s\<lparr>console_errors := Suc (console_errors s), isLoadingAssets := False\<rparr>"

text \<open>Lines 114-120: the camera is moved back along z so that the plane fits the view.\<close>

definition fit_camera :: "real \<Rightarrow> real \<Rightarrow> canvas \<Rightarrow> canvas" where
  "fit_camera planeWidth planeHeight s =
     (case cameraRef s of
        None \<Rightarrow> s
      | Some cam \<Rightarrow>
          (let fov_rad = fov cam * (pi / 180);
               distance = max planeWidth planeHeight / (2 * tan (fov_rad / 2)) * 1.1;
               s1 = s\<lparr>cameraRef := Some (cam\<lparr>position :=
                          (case position cam of (x, y, z) \<Rightarrow> (x, y, distance))\<rparr>)\<rparr>;
               s2 = s1\<lparr>controlsRef := map_option (\<lambda>c. c\<lparr>target := (0, 0, 0)\<rparr>) (controlsRef s1)\<rparr>
           in update_controls s2))"

text \<open>
  The then handler (lines 95-122). The image width and height are integers, which are
  doubles as they are; the three quotients of lines 96, 100 and 102 are rounded to
  doubles. \<open>sceneRef.current!.add\<close> throws on a null scene, after the mesh ref has been
  assigned; the rejection goes to the catch handler.
\<close>

definition then_handler :: "texture \<Rightarrow> texture \<Rightarrow> canvas \<Rightarrow> canvas" where
  "then_handler originalTexture depthTexture s =
     (let imageAspect = fdiv (real (image_width originalTexture)) (real (image_height originalTexture));
          s1 = s\<lparr>aspectRatio := imageAspect\<rparr>;
          planeWidth = 2;
          planeHeight = fdiv planeWidth imageAspect
      in case new_PlaneGeometry planeWidth planeHeight 255 (js_round (fdiv 255 imageAspect)) s1 of
           (g, s2) \<Rightarrow>
             (case new_MeshStandardMaterial originalTexture depthTexture s2 of
                (m, s3) \<Rightarrow>
                  (case new_Mesh g m s3 of
                     (me, s4) \<Rightarrow>
                       (let s5 = s4\<lparr>meshRef := Some me\<rparr>
                        in case sceneRef s5 of
                             None \<Rightarrow> catch_handler s5
                           | Some sc \<Rightarrow>
                               (let s6 = s5\<lparr>sceneRef := Some (scene_add (MeshObject me) sc)\<rparr>;
                                    s7 = fit_camera planeWidth planeHeight s6
                                in s7\<lparr>isLoadingAssets := False\<rparr>)))))"

text \<open>
  The two loads of one \<open>Promise.all\<close> finish: both succeed with images of the given
  sizes, or one of them fails.
\<close>

definition load_resolved :: "nat \<times> nat \<Rightarrow> nat \<times> nat \<Rightarrow> canvas \<Rightarrow> canvas" where
  "load_resolved im dm s =
     (if pending_loads s = 0 then s
      else case new_texture im (s\<lparr>pending_loads := pending_loads s - 1\<rparr>) of
             (t, s1) \<Rightarrow> (case new_texture dm s1 of (d, s2) \<Rightarrow> then_handler t d s2))"

definition load_rejected :: "canvas \<Rightarrow> canvas" where
  "load_rejected s =
     (if pending_loads s = 0 then s
      else catch_handler (s\<lparr>pending_loads := pending_loads s - 1\<rparr>))"

subsection \<open>Camera presets and zoom\<close>

datatype preset = Front | Top | SideR | SideL | Reset

text \<open>
  \<open>setPresetView\<close> (lines 160-182). \<open>lookAt\<close> only turns the camera and is not part of
  the state kept here.
\<close>

definition preset_position :: "preset \<Rightarrow> real \<Rightarrow> vec3" where
  "preset_position p distance =
     (let d = (if distance > 0.1 then distance else 1.5)
      in case p of
           Front \<Rightarrow> (0, 0, d)
         | Reset \<Rightarrow> (0, 0, d)
         | Top \<Rightarrow> (0, d, 0.001)
         | SideR \<Rightarrow> (d, 0, 0)
         | SideL \<Rightarrow> (- d, 0, 0))"

definition setPresetView :: "preset \<Rightarrow> canvas \<Rightarrow> canvas" where
  "setPresetView p s =
     (case cameraRef s of
        None \<Rightarrow> s
      | Some cam \<Rightarrow>
          (case controlsRef s of
             None \<Rightarrow> s
           | Some c \<Rightarrow>
               (let distance = vlength (position cam)
                in case controls_reset cam c of
                     (cam1, c1) \<Rightarrow>
                       (case controls_update (cam1\<lparr>position := preset_position p distance\<rparr>) c1 of
                          (cam2, c2) \<Rightarrow> s\<lparr>cameraRef := Some cam2, controlsRef := Some c2\<rparr>))))"

text \<open>\<open>handleZoom\<close> (lines 184-192); the camera is always a perspective camera.\<close>

definition handleZoom :: "real \<Rightarrow> canvas \<Rightarrow> canvas" where
  "handleZoom factor s =
     (case cameraRef s of
        None \<Rightarrow> s
      | Some cam \<Rightarrow>
          (case controlsRef s of
             None \<Rightarrow> s
           | Some c \<Rightarrow>
               (case controls_update cam (dollyOut factor c) of
                  (cam', c') \<Rightarrow> s\<lparr>cameraRef := Some cam', controlsRef := Some c'\<rparr>)))"

text \<open>The two zoom buttons (lines 279 and 287).\<close>

definition zoom_in :: "canvas \<Rightarrow> canvas" where
  "zoom_in = handleZoom 1.2"

definition zoom_out :: "canvas \<Rightarrow> canvas" where
  "zoom_out = handleZoom 0.8"

text \<open>The distance of the camera from the orbit target; 0 when there is no camera.\<close>

definition orbit_distance :: "canvas \<Rightarrow> real" where
  "orbit_distance s =
     (case cameraRef s of
        None \<Rightarrow> 0
      | Some cam \<Rightarrow>
          (case controlsRef s of
             None \<Rightarrow> 0
           | Some c \<Rightarrow> vlength (vsub (position cam) (target c))))"

subsection \<open>Video export\<close>

definition duration :: int where
  "duration = 5000"

text \<open>
  A write to \<open>meshRef.current.rotation.y\<close>. The mesh in the ref and the child of the scene
  with the same identity are one object, so both copies are written.
\<close>

definition set_rotation_y :: "real \<Rightarrow> canvas \<Rightarrow> canvas" where
  "set_rotation_y y s =
     (case meshRef s of
        None \<Rightarrow> s
      | Some m \<Rightarrow>
          s\<lparr>meshRef := Some (m\<lparr>rotation_y := y\<rparr>),
            sceneRef := map_option
              (\<lambda>sc. sc\<lparr>children := map (\<lambda>ob. if is_mesh (mesh_id m) ob
                                               then MeshObject (m\<lparr>rotation_y := y\<rparr>) else ob)
                                         (children sc)\<rparr>)
              (sceneRef s)\<rparr>)"

text \<open>\<open>getState().includes('recording')\<close>: of the recorder's states only one contains it.\<close>

definition is_recording :: "recorder \<Rightarrow> bool" where
  "is_recording r = (rstate r = Recording)"

text \<open>
  \<open>stopRecordingAndDownload\<close> (lines 241-261), up to the return of \<open>stopRecording\<close>: the
  recorder (RecordRTC, a library) leaves the recording state and will call the callback
  once its blob is final.
\<close>

definition stopRecordingAndDownload :: "canvas \<Rightarrow> canvas" where
  "stopRecordingAndDownload s =
     (case recorderRef s of
        Some r \<Rightarrow> s\<lparr>recorderRef := Some (r\<lparr>rstate := Stopped\<rparr>),
                    stop_pending := Suc (stop_pending s)\<rparr>
      | None \<Rightarrow> s\<lparr>isRecording := False, export_signals := export_signals s @ [False]\<rparr>)"

text \<open>
  The callback given to \<open>stopRecording\<close> (lines 243-256): one blob, one download of it,
  the recorder released, the host told. On a null recorder ref \<open>getBlob\<close> throws and the
  rest of the callback does not run.
\<close>

definition stop_callback :: "canvas \<Rightarrow> canvas" where
  "stop_callback s =
     (case recorderRef s of
        None \<Rightarrow> s
      | Some r \<Rightarrow>
          s\<lparr>downloads := downloads s @ [''depthvision_animation.webm''],
            recorderRef := None,
            isRecording := False,
            export_signals := export_signals s @ [False]\<rparr>)"

text \<open>The recorder invokes one pending stop callback.\<close>

definition recorder_stopped :: "canvas \<Rightarrow> canvas" where
  "recorder_stopped s =
     (if stop_pending s = 0 then s
      else stop_callback (s\<lparr>stop_pending := stop_pending s - 1\<rparr>))"

text \<open>
  \<open>animateRecording\<close> (lines 224-237), run at time \<open>now\<close> with the captured
  \<open>initialRotationY\<close> and \<open>startTime\<close>.
\<close>

definition animateRecording :: "real \<times> int \<Rightarrow> int \<Rightarrow> canvas \<Rightarrow> canvas" where
  "animateRecording cl now s =
     (case cl of
        (initialRotationY, startTime) \<Rightarrow>
          if (case recorderRef s of None \<Rightarrow> True | Some r \<Rightarrow> \<not> is_recording r) then s
          else
            (let elapsedTime = now - startTime
             in if elapsedTime < duration
                then (set_rotation_y
                        (initialRotationY + (real_of_int elapsedTime / real_of_int duration) * pi * 2) s)
                       \<lparr>recording_tick := Some cl\<rparr>
                else set_rotation_y initialRotationY (stopRecordingAndDownload s)))"

text \<open>The browser runs the scheduled \<open>animateRecording\<close> callback at time \<open>now\<close>.\<close>

definition recording_frame :: "int \<Rightarrow> canvas \<Rightarrow> canvas" where
  "recording_frame now s =
     (case recording_tick s of
        None \<Rightarrow> s
      | Some cl \<Rightarrow> animateRecording cl now (s\<lparr>recording_tick := None\<rparr>))"

text \<open>
  \<open>startRecording\<close> (lines 205-239): \<open>startTime\<close> is the clock when the recorder has
  started, \<open>now\<close> the clock at the first, direct call of \<open>animateRecording\<close>.
\<close>

definition startRecording :: "int \<Rightarrow> int \<Rightarrow> canvas \<Rightarrow> canvas" where
  "startRecording startTime now s =
     (if rendererRef s = None \<or> sceneRef s = None \<or> cameraRef s = None then s
      else
        (let s1 = s\<lparr>export_signals := export_signals s @ [True], isRecording := True\<rparr>;
             s2 = s1\<lparr>recorderRef := Some \<lparr>rstate = Recording\<rparr>\<rparr>;
             initialRotationY = (case meshRef s2 of None \<Rightarrow> 0 | Some m \<Rightarrow> rotation_y m)
         in animateRecording (initialRotationY, startTime) now s2))"

subsection \<open>Resource accounting and sequences of rebuilds\<close>

text \<open>The GPU resources a mesh holds: its geometry, its two textures and its material.\<close>

definition texture_resources :: "texture option \<Rightarrow> nat list" where
  "texture_resources t = (case t of None \<Rightarrow> [] | Some x \<Rightarrow> [tex_id x])"

definition mesh_resources :: "mesh \<Rightarrow> nat list" where
  "mesh_resources m =
     geo_id (geometry m) # texture_resources (map_tex (material m))
       @ texture_resources (displacementMap (material m)) @ [mat_id (material m)]"

text \<open>All live resources, and the live resources of the meshes attached to the scene.\<close>

definition gpu_count :: "canvas \<Rightarrow> nat" where
  "gpu_count s = length (gpu_live s)"

definition scene_gpu_count :: "canvas \<Rightarrow> nat" where
  "scene_gpu_count s =
     length (filter (\<lambda>r. r \<in> set (gpu_live s))
               (remdups (concat (map mesh_resources (scene_meshes s)))))"

text \<open>
  The state between two rebuilds: the scene holds exactly the mesh of the ref, every
  live resource belongs to that mesh, the renderer and the scene exist together, and no
  load is in flight.
\<close>

definition mesh_attached :: "canvas \<Rightarrow> bool" where
  "mesh_attached s =
     (case meshRef s of None \<Rightarrow> scene_meshes s = [] | Some m \<Rightarrow> scene_meshes s = [m])"

definition tidy :: "canvas \<Rightarrow> bool" where
  "tidy s =
     (mesh_attached s
      \<and> set (gpu_live s) \<subseteq> (case meshRef s of None \<Rightarrow> {} | Some m \<Rightarrow> set (mesh_resources m))
      \<and> (rendererRef s = None) = (sceneRef s = None)
      \<and> pending_loads s = 0)"

text \<open>
  One rebuild that runs to its end before the next begins: the inputs change to a pair
  of URIs, and both loads then succeed with images of the given sizes.
\<close>

record input_pair =
  originalImageUri :: string
  depthMapUri :: string
  originalSize :: "nat \<times> nat"
  depthSize :: "nat \<times> nat"

definition start_rebuild :: "input_pair \<Rightarrow> canvas \<Rightarrow> canvas" where
  "start_rebuild p s = set_inputs (Some (originalImageUri p)) (Some (depthMapUri p)) s"

definition rebuild :: "input_pair \<Rightarrow> canvas \<Rightarrow> canvas" where
  "rebuild p s = load_resolved (originalSize p) (depthSize p) (start_rebuild p s)"

fun rebuilds :: "input_pair list \<Rightarrow> canvas \<Rightarrow> canvas" where
  "rebuilds [] s = s"
| "rebuilds (p # ps) s = rebuilds ps (rebuild p s)"

definition valid_pair :: "input_pair \<Rightarrow> bool" where
  "valid_pair p = (originalImageUri p \<noteq> [] \<and> depthMapUri p \<noteq> [])"

text \<open>The state in which the loads of a rebuild start.\<close>

definition loading_clean :: "canvas \<Rightarrow> bool" where
  "loading_clean s = (gpu_live s = [] \<and> meshRef s = None \<and> scene_meshes s = []
     \<and> sceneRef s \<noteq> None \<and> rendererRef s \<noteq> None \<and> pending_loads s = 1 \<and> mountRef s \<noteq> None)"


subsection \<open>Example inputs\<close>

definition example_pair :: input_pair where
  "example_pair =
     \<lparr>originalImageUri = ''data:image/png;base64,iVBORw0KGgo'',
      depthMapUri = ''data:image/png;base64,iVBORw0KGgp'',
      originalSize = (1920, 1080), depthSize = (1920, 1080)\<rparr>"

definition second_pair :: input_pair where
  "second_pair =
     \<lparr>originalImageUri = ''data:image/jpeg;base64,/9j/4AAQ'',
      depthMapUri = ''data:image/png;base64,iVBORw0KGgq'',
      originalSize = (1024, 1024), depthSize = (512, 512)\<rparr>"

text \<open>A mounted component that has built its first mesh.\<close>

definition example_canvas :: canvas where
  "example_canvas = rebuild example_pair (mount (800, 600) initial_canvas)"

text \<open>
  The two textures of a 1920 by 1080 image pair, and a colour texture of 1200 by 1160,
  for which \<open>255 * 1160 / 1200\<close> is 246.5.
\<close>

definition tie_color_texture :: texture where
  "tie_color_texture = \<lparr>tex_id = 0, image_width = 1200, image_height = 1160\<rparr>"


definition example_color_texture :: texture where
  "example_color_texture = \<lparr>tex_id = 0, image_width = 1920, image_height = 1080\<rparr>"

definition example_depth_texture :: texture where
  "example_depth_texture = \<lparr>tex_id = 1, image_width = 1920, image_height = 1080\<rparr>"

subsection \<open>The controls as the component makes them\<close>

text \<open>
  The component never sets \<open>minDistance\<close> or \<open>maxDistance\<close> and never saves a state of
  its controls: the clamps are the ones of \<open>init_three\<close> (from 0, no upper bound) and
  the saved target is the origin.
\<close>

definition component_controls :: "controls \<Rightarrow> bool" where
  "component_controls c =
     (target0 c = (0, 0, 0) \<and> minDistance c = 0 \<and> maxDistance c = None \<and> scale c = 1)"

text \<open>
  A component with its scene made, whose camera has been brought to 0.05 from the
  origin on the z axis (the controls let the user dolly in with the wheel).
\<close>

definition close_canvas :: canvas where
  "close_canvas =
     (init_three (800, 600) (mount (800, 600) initial_canvas))
       \<lparr>cameraRef := Some \<lparr>fov = 75, aspect = 4 / 3, position = (0, 0, 0.05)\<rparr>\<rparr>"

text \<open>A component whose first loads are in flight: the camera is where \<open>init_three\<close> put it.\<close>

definition loading_canvas :: canvas where
  "loading_canvas = start_rebuild example_pair (mount (800, 600) initial_canvas)"

text \<open>A component with its scene made, whose camera the user has orbited to (3, 0, 4).\<close>

definition orbited_canvas :: canvas where
  "orbited_canvas =
     (init_three (800, 600) (mount (800, 600) initial_canvas))
       \<lparr>cameraRef := Some \<lparr>fov = 75, aspect = 4 / 3, position = (3, 0, 4)\<rparr>\<rparr>"

subsection \<open>One export session\<close>

text \<open>
  What happens to a running export: the browser runs the scheduled \<open>animateRecording\<close>
  callback at some time, or the recorder reports that it has stopped.
\<close>

datatype export_event = Frame int | StopDone

fun export_step :: "export_event \<Rightarrow> canvas \<Rightarrow> canvas" where
  "export_step (Frame now) s = recording_frame now s"
| "export_step StopDone s = recorder_stopped s"

fun export_run :: "export_event list \<Rightarrow> canvas \<Rightarrow> canvas" where
  "export_run [] s = s"
| "export_run (e # es) s = export_run es (export_step e s)"

text \<open>No export is under way.\<close>

definition export_idle :: "canvas \<Rightarrow> bool" where
  "export_idle s =
     (recorderRef s = None \<and> recording_tick s = None \<and> stop_pending s = 0 \<and> \<not> isRecording s)"

text \<open>
  The three phases of the session started from state \<open>s0\<close> with the captured values
  \<open>cl\<close>: capturing (the recorder records and the next callback is scheduled),
  finalizing (the recorder was stopped and owes its callback) and done.
\<close>

definition capturing :: "real \<times> int \<Rightarrow> canvas \<Rightarrow> canvas \<Rightarrow> bool" where
  "capturing cl s0 s =
     (recorderRef s = Some \<lparr>rstate = Recording\<rparr> \<and> recording_tick s = Some cl
      \<and> stop_pending s = 0 \<and> isRecording s \<and> downloads s = downloads s0
      \<and> export_signals s = export_signals s0 @ [True]
      \<and> map_option mesh_id (meshRef s) = map_option mesh_id (meshRef s0))"

definition finalizing :: "real \<times> int \<Rightarrow> canvas \<Rightarrow> canvas \<Rightarrow> bool" where
  "finalizing cl s0 s =
     (recorderRef s = Some \<lparr>rstate = Stopped\<rparr> \<and> recording_tick s = None
      \<and> stop_pending s = 1 \<and> isRecording s \<and> downloads s = downloads s0
      \<and> export_signals s = export_signals s0 @ [True]
      \<and> map_option rotation_y (meshRef s) = map_option (\<lambda>m. fst cl) (meshRef s0))"

definition finished :: "real \<times> int \<Rightarrow> canvas \<Rightarrow> canvas \<Rightarrow> bool" where
  "finished cl s0 s =
     (recorderRef s = None \<and> recording_tick s = None
      \<and> stop_pending s = 0 \<and> \<not> isRecording s
      \<and> downloads s = downloads s0 @ [''depthvision_animation.webm'']
      \<and> export_signals s = export_signals s0 @ [True, False]
      \<and> map_option rotation_y (meshRef s) = map_option (\<lambda>m. fst cl) (meshRef s0))"

text \<open>An export of the example mesh, started at clock 1000 and not yet at its first frame.\<close>

definition recording_canvas :: canvas where
  "recording_canvas = startRecording 1000 1000 example_canvas"

section \<open>Properties\<close>

subsection \<open>Disposal\<close>

lemma meshRef_dispose [simp]: "meshRef (dispose r s) = meshRef s"
  by (simp add: dispose_def)

lemma sceneRef_dispose [simp]: "sceneRef (dispose r s) = sceneRef s"
  by (simp add: dispose_def)

lemma meshRef_dispose_texture [simp]: "meshRef (dispose_texture t s) = meshRef s"
  by (simp add: dispose_texture_def split: option.splits)

lemma sceneRef_dispose_texture [simp]: "sceneRef (dispose_texture t s) = sceneRef s"
  by (simp add: dispose_texture_def split: option.splits)

lemma cleanupScene_no_mesh: "meshRef s = None \<Longrightarrow> cleanupScene s = s"
  by (simp add: cleanupScene_def)

lemma cleanupScene_no_scene: "sceneRef s = None \<Longrightarrow> cleanupScene s = s"
  by (simp add: cleanupScene_def split: option.splits)

lemma meshRef_cleanupScene:
  "meshRef (cleanupScene s) = (if sceneRef s = None then meshRef s else None)"
  by (auto simp: cleanupScene_def Let_def split: option.splits)

lemma cleanupScene_idem: "cleanupScene (cleanupScene s) = cleanupScene s"
proof (cases "sceneRef s = None")
  case True
  then show ?thesis by (simp add: cleanupScene_no_scene)
next
  case False
  then have "meshRef (cleanupScene s) = None" by (auto simp: meshRef_cleanupScene)
  then show ?thesis by (rule cleanupScene_no_mesh)
qed


lemma gpu_live_dispose [simp]: "gpu_live (dispose r s) = removeAll r (gpu_live s)"
  by (simp add: dispose_def)

lemma gpu_live_dispose_texture [simp]:
  "set (gpu_live (dispose_texture t s)) = set (gpu_live s) - set (texture_resources t)"
  by (simp add: dispose_texture_def texture_resources_def split: option.splits)

lemma dispose_frame [simp]:
  "rendererRef (dispose r s) = rendererRef s"
  "mountRef (dispose r s) = mountRef s" "pending_loads (dispose r s) = pending_loads s"
  "console_errors (dispose r s) = console_errors s" "isLoadingAssets (dispose r s) = isLoadingAssets s"
  "next_id (dispose r s) = next_id s" "recorderRef (dispose r s) = recorderRef s"
  "recording_tick (dispose r s) = recording_tick s" "stop_pending (dispose r s) = stop_pending s"
  "downloads (dispose r s) = downloads s" "export_signals (dispose r s) = export_signals s"
  "isRecording (dispose r s) = isRecording s" "resize_listeners (dispose r s) = resize_listeners s"
  "animate_pending (dispose r s) = animate_pending s" "has_cleanup (dispose r s) = has_cleanup s"
  "cameraRef (dispose r s) = cameraRef s" "controlsRef (dispose r s) = controlsRef s"
  "frames (dispose r s) = frames s"
  by (simp_all add: dispose_def)

lemma dispose_texture_frame [simp]:
  "rendererRef (dispose_texture t s) = rendererRef s"
  "mountRef (dispose_texture t s) = mountRef s" "pending_loads (dispose_texture t s) = pending_loads s"
  "console_errors (dispose_texture t s) = console_errors s"
  "isLoadingAssets (dispose_texture t s) = isLoadingAssets s"
  "next_id (dispose_texture t s) = next_id s" "recorderRef (dispose_texture t s) = recorderRef s"
  "recording_tick (dispose_texture t s) = recording_tick s"
  "stop_pending (dispose_texture t s) = stop_pending s"
  "downloads (dispose_texture t s) = downloads s"
  "export_signals (dispose_texture t s) = export_signals s"
  "isRecording (dispose_texture t s) = isRecording s"
  "resize_listeners (dispose_texture t s) = resize_listeners s"
  "animate_pending (dispose_texture t s) = animate_pending s"
  "has_cleanup (dispose_texture t s) = has_cleanup s"
  "cameraRef (dispose_texture t s) = cameraRef s" "controlsRef (dispose_texture t s) = controlsRef s"
  "frames (dispose_texture t s) = frames s"
  by (simp_all add: dispose_texture_def split: option.splits)

lemma cleanupScene_frame [simp]:
  "rendererRef (cleanupScene s) = rendererRef s"
  "mountRef (cleanupScene s) = mountRef s" "pending_loads (cleanupScene s) = pending_loads s"
  "console_errors (cleanupScene s) = console_errors s"
  "isLoadingAssets (cleanupScene s) = isLoadingAssets s"
  "next_id (cleanupScene s) = next_id s" "recorderRef (cleanupScene s) = recorderRef s"
  "recording_tick (cleanupScene s) = recording_tick s"
  "stop_pending (cleanupScene s) = stop_pending s"
  "downloads (cleanupScene s) = downloads s"
  "export_signals (cleanupScene s) = export_signals s"
  "isRecording (cleanupScene s) = isRecording s"
  "resize_listeners (cleanupScene s) = resize_listeners s"
  "animate_pending (cleanupScene s) = animate_pending s"
  "has_cleanup (cleanupScene s) = has_cleanup s"
  "cameraRef (cleanupScene s) = cameraRef s" "controlsRef (cleanupScene s) = controlsRef s"
  "frames (cleanupScene s) = frames s"
  by (simp_all add: cleanupScene_def Let_def split: option.splits)

lemma sceneRef_cleanupScene_None [simp]: "(sceneRef (cleanupScene s) = None) = (sceneRef s = None)"
  by (simp add: cleanupScene_def Let_def split: option.splits)

lemma gpu_live_cleanupScene:
  "meshRef s = Some m \<Longrightarrow> sceneRef s = Some sc \<Longrightarrow>
   set (gpu_live (cleanupScene s)) = set (gpu_live s) - set (mesh_resources m)"
  by (auto simp: cleanupScene_def Let_def mesh_resources_def)

lemma concat_meshes_filter:
  "concat (map (\<lambda>ob. case ob of MeshObject m \<Rightarrow> [m] | _ \<Rightarrow> []) (filter (\<lambda>ob. \<not> is_mesh i ob) obs))
   = filter (\<lambda>x. mesh_id x \<noteq> i) (concat (map (\<lambda>ob. case ob of MeshObject m \<Rightarrow> [m] | _ \<Rightarrow> []) obs))"
  by (induction obs) (auto simp: is_mesh_def split: object3d.splits)

lemma scene_meshes_cleanupScene:
  "meshRef s = Some m \<Longrightarrow> sceneRef s = Some sc \<Longrightarrow>
   scene_meshes (cleanupScene s) = filter (\<lambda>x. mesh_id x \<noteq> mesh_id m) (scene_meshes s)"
  by (simp add: cleanupScene_def Let_def scene_meshes_def scene_remove_def concat_meshes_filter)

subsection \<open>What the render loop and the camera code leave alone\<close>

lemma render_frame [simp]:
  "gpu_live (render s) = gpu_live s" "meshRef (render s) = meshRef s"
  "sceneRef (render s) = sceneRef s" "rendererRef (render s) = rendererRef s"
  "mountRef (render s) = mountRef s" "pending_loads (render s) = pending_loads s"
  "console_errors (render s) = console_errors s" "isLoadingAssets (render s) = isLoadingAssets s"
  "next_id (render s) = next_id s" "recorderRef (render s) = recorderRef s"
  "recording_tick (render s) = recording_tick s" "stop_pending (render s) = stop_pending s"
  "downloads (render s) = downloads s" "export_signals (render s) = export_signals s"
  "isRecording (render s) = isRecording s" "resize_listeners (render s) = resize_listeners s"
  "animate_pending (render s) = animate_pending s" "has_cleanup (render s) = has_cleanup s"
  "cameraRef (render s) = cameraRef s" "controlsRef (render s) = controlsRef s"
  by (simp_all add: render_def)

lemma update_controls_frame [simp]:
  "gpu_live (update_controls s) = gpu_live s" "meshRef (update_controls s) = meshRef s"
  "sceneRef (update_controls s) = sceneRef s" "rendererRef (update_controls s) = rendererRef s"
  "mountRef (update_controls s) = mountRef s" "pending_loads (update_controls s) = pending_loads s"
  "console_errors (update_controls s) = console_errors s"
  "isLoadingAssets (update_controls s) = isLoadingAssets s"
  "next_id (update_controls s) = next_id s" "recorderRef (update_controls s) = recorderRef s"
  "recording_tick (update_controls s) = recording_tick s"
  "stop_pending (update_controls s) = stop_pending s"
  "downloads (update_controls s) = downloads s"
  "export_signals (update_controls s) = export_signals s"
  "isRecording (update_controls s) = isRecording s"
  "resize_listeners (update_controls s) = resize_listeners s"
  "animate_pending (update_controls s) = animate_pending s"
  "has_cleanup (update_controls s) = has_cleanup s" "frames (update_controls s) = frames s"
  by (simp_all add: update_controls_def split: option.splits prod.splits)

lemma animate_frame [simp]:
  "gpu_live (animate s) = gpu_live s" "meshRef (animate s) = meshRef s"
  "sceneRef (animate s) = sceneRef s" "rendererRef (animate s) = rendererRef s"
  "mountRef (animate s) = mountRef s" "pending_loads (animate s) = pending_loads s"
  "console_errors (animate s) = console_errors s" "isLoadingAssets (animate s) = isLoadingAssets s"
  "next_id (animate s) = next_id s" "recorderRef (animate s) = recorderRef s"
  "recording_tick (animate s) = recording_tick s" "stop_pending (animate s) = stop_pending s"
  "downloads (animate s) = downloads s" "export_signals (animate s) = export_signals s"
  "isRecording (animate s) = isRecording s" "resize_listeners (animate s) = resize_listeners s"
  "has_cleanup (animate s) = has_cleanup s"
  by (simp_all add: animate_def)

lemma fit_camera_frame [simp]:
  "gpu_live (fit_camera w h s) = gpu_live s" "meshRef (fit_camera w h s) = meshRef s"
  "sceneRef (fit_camera w h s) = sceneRef s" "rendererRef (fit_camera w h s) = rendererRef s"
  "mountRef (fit_camera w h s) = mountRef s" "pending_loads (fit_camera w h s) = pending_loads s"
  "console_errors (fit_camera w h s) = console_errors s"
  "isLoadingAssets (fit_camera w h s) = isLoadingAssets s"
  "next_id (fit_camera w h s) = next_id s" "recorderRef (fit_camera w h s) = recorderRef s"
  "recording_tick (fit_camera w h s) = recording_tick s"
  "stop_pending (fit_camera w h s) = stop_pending s"
  "downloads (fit_camera w h s) = downloads s"
  "export_signals (fit_camera w h s) = export_signals s"
  "isRecording (fit_camera w h s) = isRecording s"
  "resize_listeners (fit_camera w h s) = resize_listeners s"
  "animate_pending (fit_camera w h s) = animate_pending s"
  "has_cleanup (fit_camera w h s) = has_cleanup s"
  by (simp_all add: fit_camera_def Let_def split: option.splits prod.splits)

subsection \<open>The effect\<close>

lemma effect_cleanup_frame [simp]:
  "gpu_live (effect_cleanup s) = gpu_live s" "meshRef (effect_cleanup s) = meshRef s"
  "sceneRef (effect_cleanup s) = sceneRef s" "rendererRef (effect_cleanup s) = rendererRef s"
  "mountRef (effect_cleanup s) = mountRef s" "pending_loads (effect_cleanup s) = pending_loads s"
  "console_errors (effect_cleanup s) = console_errors s"
  "isLoadingAssets (effect_cleanup s) = isLoadingAssets s"
  "next_id (effect_cleanup s) = next_id s" "recorderRef (effect_cleanup s) = recorderRef s"
  "recording_tick (effect_cleanup s) = recording_tick s"
  "stop_pending (effect_cleanup s) = stop_pending s"
  "downloads (effect_cleanup s) = downloads s"
  "export_signals (effect_cleanup s) = export_signals s"
  "isRecording (effect_cleanup s) = isRecording s"
  "animate_pending (effect_cleanup s) = animate_pending s"
  "cameraRef (effect_cleanup s) = cameraRef s" "controlsRef (effect_cleanup s) = controlsRef s"
  "frames (effect_cleanup s) = frames s"
  by (simp_all add: effect_cleanup_def)

lemma scene_meshes_cong: "sceneRef s = sceneRef s' \<Longrightarrow> scene_meshes s = scene_meshes s'"
  by (simp add: scene_meshes_def)

lemma mesh_attached_cong:
  "sceneRef s = sceneRef s' \<Longrightarrow> meshRef s = meshRef s' \<Longrightarrow> mesh_attached s = mesh_attached s'"
  using scene_meshes_cong [of s s'] by (simp add: mesh_attached_def split: option.splits)

lemma cleanupScene_clean:
  assumes "mesh_attached s"
    and "set (gpu_live s) \<subseteq> (case meshRef s of None \<Rightarrow> {} | Some m \<Rightarrow> set (mesh_resources m))"
  shows "gpu_live (cleanupScene s) = []" "meshRef (cleanupScene s) = None"
    "scene_meshes (cleanupScene s) = []"
proof -
  show "gpu_live (cleanupScene s) = []" "meshRef (cleanupScene s) = None"
    "scene_meshes (cleanupScene s) = []"
  proof (atomize (full), cases "meshRef s")
    case None
    with assms show "gpu_live (cleanupScene s) = [] \<and> meshRef (cleanupScene s) = None \<and>
      scene_meshes (cleanupScene s) = []"
      by (simp add: cleanupScene_no_mesh mesh_attached_def)
  next
    case (Some m)
    with assms(1) have sm: "scene_meshes s = [m]" by (simp add: mesh_attached_def)
    then obtain sc where sc: "sceneRef s = Some sc"
      by (cases "sceneRef s") (auto simp: scene_meshes_def)
    have "set (gpu_live (cleanupScene s)) = {}"
      using assms(2) Some sc by (auto simp: gpu_live_cleanupScene)
    moreover have "meshRef (cleanupScene s) = None"
      using sc by (simp add: meshRef_cleanupScene)
    moreover have "scene_meshes (cleanupScene s) = []"
      using Some sc sm by (simp add: scene_meshes_cleanupScene)
    ultimately show "gpu_live (cleanupScene s) = [] \<and> meshRef (cleanupScene s) = None \<and>
      scene_meshes (cleanupScene s) = []" by simp
  qed
qed

lemma init_three_frame [simp]:
  "gpu_live (init_three vp s) = gpu_live s" "meshRef (init_three vp s) = meshRef s"
  "mountRef (init_three vp s) = mountRef s" "pending_loads (init_three vp s) = pending_loads s"
  "console_errors (init_three vp s) = console_errors s"
  "isLoadingAssets (init_three vp s) = isLoadingAssets s"
  "next_id (init_three vp s) = next_id s" "recorderRef (init_three vp s) = recorderRef s"
  "recording_tick (init_three vp s) = recording_tick s"
  "stop_pending (init_three vp s) = stop_pending s"
  "downloads (init_three vp s) = downloads s"
  "export_signals (init_three vp s) = export_signals s"
  "isRecording (init_three vp s) = isRecording s"
  "sceneRef (init_three vp s) =
     Some \<lparr>background = 0xf0f4f8, children = [AmbientLight, DirectionalLight]\<rparr>"
  "rendererRef (init_three vp s) = Some \<lparr>size = vp\<rparr>"
  "scene_meshes (init_three vp s) = []"
  by (simp_all add: init_three_def scene_meshes_def)

lemma resize_view_frame [simp]:
  "gpu_live (resize_view vp s) = gpu_live s" "meshRef (resize_view vp s) = meshRef s"
  "sceneRef (resize_view vp s) = sceneRef s"
  "mountRef (resize_view vp s) = mountRef s" "pending_loads (resize_view vp s) = pending_loads s"
  "console_errors (resize_view vp s) = console_errors s"
  "isLoadingAssets (resize_view vp s) = isLoadingAssets s"
  "next_id (resize_view vp s) = next_id s" "recorderRef (resize_view vp s) = recorderRef s"
  "recording_tick (resize_view vp s) = recording_tick s"
  "stop_pending (resize_view vp s) = stop_pending s"
  "downloads (resize_view vp s) = downloads s"
  "export_signals (resize_view vp s) = export_signals s"
  "isRecording (resize_view vp s) = isRecording s"
  "rendererRef (resize_view vp s) = map_option (\<lambda>r. r\<lparr>size := vp\<rparr>) (rendererRef s)"
  by (simp_all add: resize_view_def)

lemma start_rebuild_clean:
  assumes t: "tidy s" and m: "mountRef s = Some vp" and v: "valid_pair p"
  shows "loading_clean (start_rebuild p s)"
proof -
  let ?s0 = "effect_cleanup s"
  let ?s1 = "?s0\<lparr>isLoadingAssets := True\<rparr>"
  let ?s2 = "if rendererRef ?s1 = None then init_three vp ?s1 else resize_view vp ?s1"
  have att: "mesh_attached ?s2"
  proof (cases "rendererRef s = None")
    case True
    with t have "sceneRef s = None" by (simp add: tidy_def)
    with t have "meshRef s = None"
      by (cases "meshRef s") (auto simp: tidy_def mesh_attached_def scene_meshes_def)
    with True show ?thesis by (simp add: mesh_attached_def)
  next
    case False
    have "mesh_attached (resize_view vp ?s1) = mesh_attached s"
      by (rule mesh_attached_cong) simp_all
    moreover from False have "rendererRef ?s1 \<noteq> None" by simp
    ultimately show ?thesis using t by (auto simp: tidy_def)
  qed
  have sub: "set (gpu_live ?s2) \<subseteq> (case meshRef ?s2 of None \<Rightarrow> {} | Some m \<Rightarrow> set (mesh_resources m))"
    using t by (simp add: tidy_def)
  have sc: "sceneRef ?s2 \<noteq> None \<and> rendererRef ?s2 \<noteq> None"
  proof (cases "rendererRef s = None")
    case True
    then show ?thesis by simp
  next
    case False
    with t have "sceneRef s \<noteq> None" by (simp add: tidy_def)
    with False show ?thesis by simp
  qed
  have pl: "pending_loads ?s2 = 0" "mountRef ?s2 = Some vp"
    using t m by (auto simp: tidy_def)
  note cl = cleanupScene_clean [OF att sub]
  have eq: "start_rebuild p s =
     (animate ((cleanupScene ?s2)\<lparr>pending_loads := Suc (pending_loads (cleanupScene ?s2))\<rparr>))
       \<lparr>resize_listeners := Suc (resize_listeners (animate ((cleanupScene ?s2)\<lparr>pending_loads := Suc (pending_loads (cleanupScene ?s2))\<rparr>))),
        has_cleanup := True\<rparr>"
    using m v by (simp add: start_rebuild_def set_inputs_def effect_run_def truthy_def valid_pair_def Let_def)
  have sm: "scene_meshes (start_rebuild p s) = scene_meshes (cleanupScene ?s2)"
    unfolding eq by (rule scene_meshes_cong) simp
  show ?thesis
    unfolding loading_clean_def sm
    unfolding eq using cl sc pl by simp
qed

subsection \<open>Rounding to doubles\<close>

lemma binade_bounds:
  assumes "0 < x"
  shows "2 powi binade x \<le> x \<and> x < 2 powi (binade x + 1)"
proof (cases "1 \<le> x")
  case True
  let ?n = "\<lfloor>x\<rfloor>"
  let ?b = "bitlen ?n"
  from True have n: "0 < ?n" by simp
  from bitlen_bounds [OF n] have lo: "2 ^ nat (?b - 1) \<le> ?n" and hi: "?n < 2 ^ nat ?b"
    by simp_all
  have b1: "1 \<le> ?b" using n by (simp add: bitlen_alt_def)
  have l: "2 ^ nat (?b - 1) \<le> x"
    using lo le_floor_iff [of "2 ^ nat (?b - 1)" x] by simp
  have h: "x < 2 ^ nat ?b"
    using hi floor_less_iff [of x "2 ^ nat ?b"] by simp
  have e1: "(2::real) powi (?b - 1) = 2 ^ nat (?b - 1)" using b1 by (simp add: power_int_nonneg_exp)
  have e2: "(2::real) powi (?b - 1 + 1) = 2 ^ nat ?b" using b1 by (simp add: power_int_nonneg_exp)
  show ?thesis using True l h e1 e2 by (simp add: binade_def)
next
  case False
  with assms have x1: "x < 1" by simp
  define m where "m = nat \<lceil>1 / x\<rceil>"
  define c where "c = ceillog2 m"
  from assms x1 have y: "1 < 1 / x" by simp
  have c2: "(2::int) \<le> \<lceil>1 / x\<rceil>" using y by linarith
  then have m2: "2 \<le> m" unfolding m_def by linarith
  then have m0: "0 < m" by linarith
  have mreal: "real m = real_of_int \<lceil>1 / x\<rceil>" unfolding m_def using c2 by simp
  have clt: "real m - 1 < 1 / x" unfolding mreal by linarith
  have cge: "1 / x \<le> real m" unfolding mreal by linarith
  have up: "m \<le> 2 ^ c" unfolding c_def by (rule le_two_power_ceillog2)
  have dn: "2 ^ c < 2 * m" unfolding c_def using two_power_ceillog2_gt [OF m0] .
  have "c \<noteq> 0"
  proof
    assume "c = 0"
    with up have "m \<le> 1" by simp
    with m2 show False by linarith
  qed
  then obtain k where k: "c = Suc k" by (cases c) simp_all
  from dn k have "2 ^ k < m" by simp
  then have "2 ^ k + 1 \<le> m" by linarith
  from of_nat_mono [OF this, where 'a = real] have "2 ^ k + 1 \<le> real m" by simp
  then have "2 ^ k < 1 / x" using clt by linarith
  then have hi: "x < 1 / 2 ^ k" using assms by (simp add: field_simps)
  from of_nat_mono [OF up, where 'a = real] have "real m \<le> 2 ^ c" by simp
  then have "1 / x \<le> 2 ^ c" using cge by linarith
  then have lo: "1 / 2 ^ c \<le> x" using assms by (simp add: field_simps)
  have e1: "(2::real) powi (- int c) = 1 / 2 ^ c" by (simp add: power_int_minus_divide)
  have "- int c + 1 = - int k" using k by simp
  then have e2: "(2::real) powi (- int c + 1) = 1 / 2 ^ k" by (simp add: power_int_minus_divide)
  have "binade x = - int c" using False by (simp add: binade_def c_def m_def)
  then show ?thesis using lo hi e1 e2 by simp
qed

lemma binade_eqI:
  assumes "0 < x" and "2 powi k \<le> x" and "x < 2 powi (k + 1)"
  shows "binade x = k"
proof -
  from binade_bounds [OF assms(1)]
  have b: "2 powi binade x \<le> x" "x < 2 powi (binade x + 1)" by simp_all
  have "(2::real) powi k < 2 powi (binade x + 1)" using assms(2) b(2) by linarith
  then have 1: "k < binade x + 1"
    using power_int_increasing [of "binade x + 1" k "2::real"] by (cases "k < binade x + 1") simp_all
  have "(2::real) powi binade x < 2 powi (k + 1)" using assms(3) b(1) by linarith
  then have 2: "binade x < k + 1"
    using power_int_increasing [of "k + 1" "binade x" "2::real"] by (cases "binade x < k + 1") simp_all
  from 1 2 show ?thesis by simp
qed

lemma round_half_even_near: "\<bar>real_of_int (round_half_even y) - y\<bar> \<le> 1 / 2"
  unfolding round_half_even_def Let_def by (auto; linarith)

lemma ulp_pos: "0 < ulp x"
  by (simp add: ulp_def)

lemma ulp_le:
  assumes "0 < x"
  shows "ulp x \<le> x / 2 ^ 52"
proof -
  have "ulp x = 2 powi binade x / 2 ^ 52"
    by (simp add: ulp_def power_int_diff)
  with binade_bounds [OF assms] show ?thesis by (simp add: divide_right_mono)
qed

lemma to_double_error:
  assumes "0 < x"
  shows "\<bar>to_double x - x\<bar> \<le> x / 2 ^ 53"
proof -
  let ?u = "ulp x"
  let ?m = "real_of_int (round_half_even (x / ?u))"
  have u: "0 < ?u" by (rule ulp_pos)
  have td: "to_double x = ?m * ?u" using assms by (simp add: to_double_def)
  have "\<bar>?m - x / ?u\<bar> \<le> 1 / 2" by (rule round_half_even_near)
  then have "\<bar>?m - x / ?u\<bar> * ?u \<le> 1 / 2 * ?u" using u by (simp add: mult_right_mono)
  moreover have "\<bar>?m - x / ?u\<bar> * ?u = \<bar>(?m - x / ?u) * ?u\<bar>"
    using u by (simp add: abs_mult)
  moreover have "(?m - x / ?u) * ?u = ?m * ?u - x"
    using u by (simp add: left_diff_distrib)
  ultimately have "\<bar>?m * ?u - x\<bar> \<le> ?u / 2" by simp
  also have "\<dots> \<le> x / 2 ^ 52 / 2" using ulp_le [OF assms] by simp
  finally show ?thesis unfolding td by simp
qed

lemma to_double_pos: "0 < x \<Longrightarrow> 0 < to_double x"
proof -
  assume x: "0 < x"
  have "x / 2 ^ 53 < x" using x by (simp add: field_simps)
  with to_double_error [OF x] show ?thesis by linarith
qed

lemma js_round_mono: "x \<le> y \<Longrightarrow> js_round x \<le> js_round y"
  by (simp add: js_round_def floor_mono)

lemma js_round_near: "\<bar>real_of_int (js_round x) - x\<bar> \<le> 1 / 2"
  unfolding js_round_def by linarith

text \<open>Rounding to a double inside a known binade.\<close>

lemma to_double_eval:
  assumes "0 < x" and "2 powi k \<le> x" and "x < 2 powi (k + 1)"
  shows "to_double x = real_of_int (round_half_even (x / 2 powi (k - 52))) * 2 powi (k - 52)"
  using assms binade_eqI [OF assms] by (simp add: to_double_def ulp_def)

subsection \<open>The mesh builder\<close>

lemma catch_handler_frame [simp]:
  "gpu_live (catch_handler s) = gpu_live s" "meshRef (catch_handler s) = meshRef s"
  "sceneRef (catch_handler s) = sceneRef s" "rendererRef (catch_handler s) = rendererRef s"
  "mountRef (catch_handler s) = mountRef s" "pending_loads (catch_handler s) = pending_loads s"
  "console_errors (catch_handler s) = Suc (console_errors s)"
  "isLoadingAssets (catch_handler s) = False"
  "next_id (catch_handler s) = next_id s" "recorderRef (catch_handler s) = recorderRef s"
  "recording_tick (catch_handler s) = recording_tick s"
  "stop_pending (catch_handler s) = stop_pending s"
  "downloads (catch_handler s) = downloads s"
  "export_signals (catch_handler s) = export_signals s"
  "isRecording (catch_handler s) = isRecording s"
  "cameraRef (catch_handler s) = cameraRef s" "controlsRef (catch_handler s) = controlsRef s"
  by (simp_all add: catch_handler_def)

lemma then_handler_mesh:
  "\<exists>m. meshRef (then_handler t d s) = Some m
     \<and> sceneRef (then_handler t d s) = map_option (scene_add (MeshObject m)) (sceneRef s)
     \<and> mesh_id m = next_id s + 2
     \<and> rotation_y m = 0
     \<and> material m = \<lparr>mat_id = next_id s + 1, map_tex = Some t, displacementMap = Some d,
                       displacementScale = 0.3, doubleSide = True\<rparr>
     \<and> geometry m = \<lparr>geo_id = next_id s, width = 2,
                       height = fdiv 2 (fdiv (real (image_width t)) (real (image_height t))),
                       widthSegments = 255,
                       heightSegments = js_round (fdiv 255 (fdiv (real (image_width t)) (real (image_height t))))\<rparr>"
  by (cases "sceneRef s")
    (simp_all add: then_handler_def Let_def new_PlaneGeometry_def new_MeshStandardMaterial_def
      new_Mesh_def)

lemma then_handler_frame [simp]:
  "gpu_live (then_handler t d s) = gpu_live s @ [next_id s, next_id s + 1]"
  "rendererRef (then_handler t d s) = rendererRef s"
  "mountRef (then_handler t d s) = mountRef s" "pending_loads (then_handler t d s) = pending_loads s"
  "isLoadingAssets (then_handler t d s) = False"
  "next_id (then_handler t d s) = next_id s + 3" "recorderRef (then_handler t d s) = recorderRef s"
  "recording_tick (then_handler t d s) = recording_tick s"
  "stop_pending (then_handler t d s) = stop_pending s"
  "downloads (then_handler t d s) = downloads s"
  "export_signals (then_handler t d s) = export_signals s"
  "isRecording (then_handler t d s) = isRecording s"
  by (cases "sceneRef s";
      simp add: then_handler_def Let_def new_PlaneGeometry_def new_MeshStandardMaterial_def
      new_Mesh_def)+

lemma console_errors_then_handler:
  "sceneRef s \<noteq> None \<Longrightarrow> console_errors (then_handler t d s) = console_errors s"
  by (cases "sceneRef s")
    (simp_all add: then_handler_def Let_def new_PlaneGeometry_def new_MeshStandardMaterial_def
      new_Mesh_def)

lemma scene_meshes_add:
  "sceneRef s' = map_option (scene_add (MeshObject m)) (sceneRef s) \<Longrightarrow> sceneRef s \<noteq> None \<Longrightarrow>
   scene_meshes s' = scene_meshes s @ [m]"
  by (cases "sceneRef s") (simp_all add: scene_meshes_def scene_add_def)

lemma load_resolved_frame [simp]:
  "rendererRef (load_resolved im dm s) = rendererRef s"
  "mountRef (load_resolved im dm s) = mountRef s"
  "recorderRef (load_resolved im dm s) = recorderRef s"
  "recording_tick (load_resolved im dm s) = recording_tick s"
  "stop_pending (load_resolved im dm s) = stop_pending s"
  "downloads (load_resolved im dm s) = downloads s"
  "export_signals (load_resolved im dm s) = export_signals s"
  "isRecording (load_resolved im dm s) = isRecording s"
  by (simp_all add: load_resolved_def new_texture_def)

lemma load_resolved_result:
  assumes "pending_loads s \<noteq> 0"
  shows "\<exists>m. meshRef (load_resolved im dm s) = Some m
     \<and> sceneRef (load_resolved im dm s) = map_option (scene_add (MeshObject m)) (sceneRef s)
     \<and> mesh_resources m = [next_id s + 2, next_id s, next_id s + 1, next_id s + 3]
     \<and> rotation_y m = 0
     \<and> width (geometry m) = 2
     \<and> height (geometry m) = fdiv 2 (fdiv (real (fst im)) (real (snd im)))
     \<and> widthSegments (geometry m) = 255
     \<and> heightSegments (geometry m) = js_round (fdiv 255 (fdiv (real (fst im)) (real (snd im))))"
proof -
  let ?s0 = "s\<lparr>pending_loads := pending_loads s - 1\<rparr>"
  let ?t = "\<lparr>tex_id = next_id s, image_width = fst im, image_height = snd im\<rparr>"
  let ?d = "\<lparr>tex_id = next_id s + 1, image_width = fst dm, image_height = snd dm\<rparr>"
  let ?s2 = "?s0\<lparr>next_id := Suc (next_id s), gpu_live := gpu_live s @ [next_id s]\<rparr>
               \<lparr>next_id := Suc (Suc (next_id s)), gpu_live := gpu_live s @ [next_id s, Suc (next_id s)]\<rparr>"
  have eq: "load_resolved im dm s = then_handler ?t ?d ?s2"
    using assms by (simp add: load_resolved_def new_texture_def)
  from then_handler_mesh [of ?t ?d ?s2] obtain m where
    m: "meshRef (then_handler ?t ?d ?s2) = Some m"
      "sceneRef (then_handler ?t ?d ?s2) = map_option (scene_add (MeshObject m)) (sceneRef ?s2)"
      "rotation_y m = 0"
      "material m = \<lparr>mat_id = next_id ?s2 + 1, map_tex = Some ?t, displacementMap = Some ?d,
                       displacementScale = 0.3, doubleSide = True\<rparr>"
      "geometry m = \<lparr>geo_id = next_id ?s2, width = 2,
                       height = fdiv 2 (fdiv (real (image_width ?t)) (real (image_height ?t))),
                       widthSegments = 255,
                       heightSegments = js_round (fdiv 255 (fdiv (real (image_width ?t)) (real (image_height ?t))))\<rparr>"
    by blast
  have "mesh_resources m = [next_id s + 2, next_id s, next_id s + 1, next_id s + 3]"
    by (simp add: mesh_resources_def texture_resources_def m(4,5))
  with m show ?thesis unfolding eq by simp
qed

lemma gpu_live_load_resolved:
  "pending_loads s \<noteq> 0 \<Longrightarrow>
   gpu_live (load_resolved im dm s) =
     gpu_live s @ [next_id s, next_id s + 1, next_id s + 2, next_id s + 3]"
  by (simp add: load_resolved_def new_texture_def)

lemma pending_loads_load_resolved:
  "pending_loads (load_resolved im dm s) = pending_loads s - 1"
  by (simp add: load_resolved_def new_texture_def)

lemma load_resolved_built:
  assumes "loading_clean s"
  shows "tidy (load_resolved im dm s) \<and> gpu_count (load_resolved im dm s) = 4
    \<and> scene_gpu_count (load_resolved im dm s) = 4 \<and> meshRef (load_resolved im dm s) \<noteq> None"
proof -
  let ?s' = "load_resolved im dm s"
  from assms have p: "pending_loads s \<noteq> 0" and g: "gpu_live s = []" and sm: "scene_meshes s = []"
    and sc: "sceneRef s \<noteq> None" and r: "rendererRef s \<noteq> None"
    by (simp_all add: loading_clean_def)
  from load_resolved_result [OF p, of im dm] obtain m where
    m: "meshRef ?s' = Some m" "sceneRef ?s' = map_option (scene_add (MeshObject m)) (sceneRef s)"
      "mesh_resources m = [next_id s + 2, next_id s, next_id s + 1, next_id s + 3]"
    by blast
  have live: "gpu_live ?s' = [next_id s, next_id s + 1, next_id s + 2, next_id s + 3]"
    using p g by (simp add: gpu_live_load_resolved)
  have meshes: "scene_meshes ?s' = [m]"
    using scene_meshes_add [OF m(2) sc] sm by simp
  have sc': "sceneRef ?s' \<noteq> None" using m(2) sc by simp
  have "tidy ?s'"
    using m(1,3) live meshes sc' r assms
    by (auto simp: tidy_def mesh_attached_def pending_loads_load_resolved loading_clean_def)
  moreover have "gpu_count ?s' = 4" by (simp add: gpu_count_def live)
  moreover have "scene_gpu_count ?s' = 4"
    by (simp add: scene_gpu_count_def live meshes m(3))
  ultimately show ?thesis using m(1) by simp
qed

subsection \<open>Rebuilds one after the other\<close>

lemma rebuild_tidy:
  assumes "tidy s" and "mountRef s \<noteq> None" and "valid_pair p"
  shows "tidy (rebuild p s) \<and> mountRef (rebuild p s) \<noteq> None \<and> gpu_count (rebuild p s) = 4
    \<and> scene_gpu_count (rebuild p s) = 4 \<and> meshRef (rebuild p s) \<noteq> None"
proof -
  from assms(2) obtain vp where "mountRef s = Some vp" by auto
  from start_rebuild_clean [OF assms(1) this assms(3)]
  have lc: "loading_clean (start_rebuild p s)" .
  then have "mountRef (start_rebuild p s) \<noteq> None" by (simp add: loading_clean_def)
  with load_resolved_built [OF lc] show ?thesis by (simp add: rebuild_def)
qed

lemma rebuilds_tidy:
  "tidy s \<Longrightarrow> mountRef s \<noteq> None \<Longrightarrow> list_all valid_pair ps \<Longrightarrow>
   tidy (rebuilds ps s) \<and> mountRef (rebuilds ps s) \<noteq> None"
proof (induction ps arbitrary: s)
  case Nil
  then show ?case by simp
next
  case (Cons p ps)
  from Cons.prems have "tidy (rebuild p s) \<and> mountRef (rebuild p s) \<noteq> None"
    using rebuild_tidy [of s p] by simp
  with Cons.IH [of "rebuild p s"] Cons.prems show ?case by simp
qed

lemma tidy_mounted_initial:
  "tidy (mount vp initial_canvas)" "mountRef (mount vp initial_canvas) \<noteq> None"
  by (simp_all add: tidy_def mount_def initial_canvas_def mesh_attached_def scene_meshes_def)

lemma valid_examples: "valid_pair example_pair" "valid_pair second_pair"
  by (simp_all add: valid_pair_def example_pair_def second_pair_def)

lemma example_canvas_tidy:
  "tidy example_canvas" "mountRef example_canvas \<noteq> None" "meshRef example_canvas \<noteq> None"
  using rebuild_tidy [OF tidy_mounted_initial valid_examples(1), of "(800, 600)"]
  by (simp_all add: example_canvas_def)

text \<open>
  C2: in any run of rebuilds that each finish before the next begins, a rebuild has
  disposed the geometry, the material and both textures of the mesh before it (and
  taken that mesh out of the scene) by the time its own loads start, and when it has
  attached its own mesh the live GPU resources, and those of them attached to the scene,
  number four: what a single mesh on a fresh component uses.
\<close>

theorem rebuilds_no_resource_growth:
  assumes "tidy s" and "mountRef s \<noteq> None" and "list_all valid_pair ps" and "valid_pair p"
  shows "gpu_count (start_rebuild p (rebuilds ps s)) = 0
    \<and> meshRef (start_rebuild p (rebuilds ps s)) = None
    \<and> scene_meshes (start_rebuild p (rebuilds ps s)) = []
    \<and> gpu_count (rebuild p (rebuilds ps s)) = 4
    \<and> scene_gpu_count (rebuild p (rebuilds ps s)) = 4
    \<and> gpu_count (rebuilds (ps @ [p]) s) = gpu_count (rebuild p (mount vp initial_canvas))"
proof -
  let ?b = "rebuilds ps s"
  from rebuilds_tidy [OF assms(1-3)] have b: "tidy ?b" "mountRef ?b \<noteq> None" by simp_all
  then obtain w where "mountRef ?b = Some w" by auto
  from start_rebuild_clean [OF b(1) this assms(4)]
  have "loading_clean (start_rebuild p ?b)" .
  then have mid: "gpu_count (start_rebuild p ?b) = 0" "meshRef (start_rebuild p ?b) = None"
    "scene_meshes (start_rebuild p ?b) = []"
    by (simp_all add: loading_clean_def gpu_count_def)
  from rebuild_tidy [OF b assms(4)]
  have after: "gpu_count (rebuild p ?b) = 4" "scene_gpu_count (rebuild p ?b) = 4" by simp_all
  have app: "rebuilds (ps @ [p]) s = rebuild p ?b"
    by (induction ps arbitrary: s) simp_all
  from rebuild_tidy [OF tidy_mounted_initial assms(4), of vp]
  have "gpu_count (rebuild p (mount vp initial_canvas)) = 4" by simp
  with mid after app show ?thesis by simp
qed

theorem rebuilds_no_resource_growth_witness:
  "gpu_count (start_rebuild example_pair (rebuilds [second_pair, example_pair, second_pair] example_canvas)) = 0
   \<and> gpu_count (rebuild example_pair (rebuilds [second_pair, example_pair, second_pair] example_canvas)) = 4
   \<and> scene_gpu_count (rebuild example_pair (rebuilds [second_pair, example_pair, second_pair] example_canvas)) = 4
   \<and> gpu_count (rebuild example_pair (mount (800, 600) initial_canvas)) = 4"
proof -
  have v: "list_all valid_pair [second_pair, example_pair, second_pair]"
    by (simp add: valid_examples)
  from rebuilds_no_resource_growth [OF example_canvas_tidy(1,2) v valid_examples(1), of "(800, 600)"]
  show ?thesis by simp
qed

subsection \<open>Disposal is idempotent\<close>

lemma cleanupScene_detaches:
  assumes "meshRef s = Some m" and "sceneRef s \<noteq> None"
  shows "m \<notin> set (scene_meshes (cleanupScene s))"
proof -
  from assms(2) obtain sc where "sceneRef s = Some sc" by auto
  from scene_meshes_cleanupScene [OF assms(1) this] show ?thesis by simp
qed

lemma cleanupScene_attached:
  assumes "mesh_attached s"
  shows "meshRef (cleanupScene s) = None \<and> scene_meshes (cleanupScene s) = []"
proof (cases "meshRef s")
  case None
  with assms show ?thesis by (simp add: cleanupScene_no_mesh mesh_attached_def)
next
  case (Some m)
  with assms have sm: "scene_meshes s = [m]" by (simp add: mesh_attached_def)
  then obtain sc where sc: "sceneRef s = Some sc"
    by (cases "sceneRef s") (auto simp: scene_meshes_def)
  from scene_meshes_cleanupScene [OF Some sc] sm sc show ?thesis
    by (simp add: meshRef_cleanupScene)
qed

text \<open>
  C10: \<open>cleanupScene\<close> is a total function on component states, without an error case. A
  second call in a row changes nothing; with no mesh in the ref, or with no scene yet,
  a call changes nothing; when there is a scene, a call leaves the ref null and the
  mesh of the ref out of the scene; and in a state where the scene holds just the mesh
  of the ref, the scene holds no mesh afterwards.
\<close>

theorem cleanupScene_idempotent_total:
  "cleanupScene (cleanupScene s) = cleanupScene s
   \<and> (meshRef s = None \<or> sceneRef s = None \<longrightarrow> cleanupScene s = s)
   \<and> (sceneRef s \<noteq> None \<longrightarrow>
        meshRef (cleanupScene s) = None
        \<and> (case meshRef s of None \<Rightarrow> True | Some m \<Rightarrow> m \<notin> set (scene_meshes (cleanupScene s))))
   \<and> (mesh_attached s \<longrightarrow>
        meshRef (cleanupScene s) = None \<and> scene_meshes (cleanupScene s) = [])"
proof (intro conjI impI)
  show "cleanupScene (cleanupScene s) = cleanupScene s" by (rule cleanupScene_idem)
next
  assume "meshRef s = None \<or> sceneRef s = None"
  then show "cleanupScene s = s"
    by (auto simp: cleanupScene_no_mesh cleanupScene_no_scene)
next
  assume "sceneRef s \<noteq> None"
  then show "meshRef (cleanupScene s) = None" by (auto simp: meshRef_cleanupScene)
next
  assume "sceneRef s \<noteq> None"
  then show "case meshRef s of None \<Rightarrow> True | Some m \<Rightarrow> m \<notin> set (scene_meshes (cleanupScene s))"
    by (auto simp: cleanupScene_detaches split: option.splits)
next
  assume "mesh_attached s"
  then show "meshRef (cleanupScene s) = None" by (simp add: cleanupScene_attached)
next
  assume "mesh_attached s"
  then show "scene_meshes (cleanupScene s) = []" by (simp add: cleanupScene_attached)
qed

theorem cleanupScene_idempotent_total_witness:
  "meshRef example_canvas \<noteq> None
   \<and> meshRef (cleanupScene example_canvas) = None
   \<and> scene_meshes (cleanupScene example_canvas) = []
   \<and> cleanupScene (cleanupScene example_canvas) = cleanupScene example_canvas
   \<and> cleanupScene initial_canvas = initial_canvas"
proof -
  have a: "mesh_attached example_canvas"
    using example_canvas_tidy(1) by (simp add: tidy_def)
  have n: "meshRef initial_canvas = None" by (simp add: initial_canvas_def)
  from cleanupScene_idempotent_total [of example_canvas] a
    cleanupScene_idempotent_total [of initial_canvas] n example_canvas_tidy(3)
  show ?thesis by simp
qed

subsection \<open>A failed load\<close>

lemma effect_run_frame [simp]:
  "recorderRef (effect_run a b s) = recorderRef s"
  "recording_tick (effect_run a b s) = recording_tick s"
  "stop_pending (effect_run a b s) = stop_pending s"
  "downloads (effect_run a b s) = downloads s"
  "export_signals (effect_run a b s) = export_signals s"
  "isRecording (effect_run a b s) = isRecording s"
  "console_errors (effect_run a b s) = console_errors s"
  "next_id (effect_run a b s) = next_id s"
  "mountRef (effect_run a b s) = mountRef s"
  by (simp_all add: effect_run_def Let_def split: option.splits)

lemma set_inputs_frame [simp]:
  "recorderRef (set_inputs a b s) = recorderRef s"
  "recording_tick (set_inputs a b s) = recording_tick s"
  "stop_pending (set_inputs a b s) = stop_pending s"
  "downloads (set_inputs a b s) = downloads s"
  "export_signals (set_inputs a b s) = export_signals s"
  "isRecording (set_inputs a b s) = isRecording s"
  "console_errors (set_inputs a b s) = console_errors s"
  "next_id (set_inputs a b s) = next_id s"
  "mountRef (set_inputs a b s) = mountRef s"
  by (simp_all add: set_inputs_def)

lemma isLoadingAssets_start_rebuild:
  "mountRef s \<noteq> None \<Longrightarrow> valid_pair p \<Longrightarrow> isLoadingAssets (start_rebuild p s)"
  by (auto simp: start_rebuild_def set_inputs_def effect_run_def truthy_def valid_pair_def Let_def)

lemma load_rejected_frame [simp]:
  "gpu_live (load_rejected s) = gpu_live s" "meshRef (load_rejected s) = meshRef s"
  "sceneRef (load_rejected s) = sceneRef s" "rendererRef (load_rejected s) = rendererRef s"
  "mountRef (load_rejected s) = mountRef s"
  "next_id (load_rejected s) = next_id s" "recorderRef (load_rejected s) = recorderRef s"
  "recording_tick (load_rejected s) = recording_tick s"
  "stop_pending (load_rejected s) = stop_pending s"
  "downloads (load_rejected s) = downloads s"
  "export_signals (load_rejected s) = export_signals s"
  "isRecording (load_rejected s) = isRecording s"
  "cameraRef (load_rejected s) = cameraRef s" "controlsRef (load_rejected s) = controlsRef s"
  by (simp_all add: load_rejected_def)

text \<open>
  C3, as the code has it: when a load of a rebuild fails, the catch handler logs one
  error and clears the loading indicator, and it touches neither the scene nor the mesh
  ref nor any GPU resource; a further rejection has nothing left to handle. No partial
  mesh exists. The scene is the one the rebuild's own \<open>cleanupScene\<close> left before the
  loads started, so it holds no mesh: the mesh from before the rebuild is gone.
\<close>

theorem load_failure_after_cleanup:
  assumes "tidy s" and "mountRef s \<noteq> None" and "valid_pair p"
  shows "isLoadingAssets (start_rebuild p s)
    \<and> console_errors (load_rejected (start_rebuild p s)) = Suc (console_errors s)
    \<and> \<not> isLoadingAssets (load_rejected (start_rebuild p s))
    \<and> load_rejected (load_rejected (start_rebuild p s)) = load_rejected (start_rebuild p s)
    \<and> sceneRef (load_rejected (start_rebuild p s)) = sceneRef (start_rebuild p s)
    \<and> meshRef (load_rejected (start_rebuild p s)) = meshRef (start_rebuild p s)
    \<and> gpu_live (load_rejected (start_rebuild p s)) = gpu_live (start_rebuild p s)
    \<and> meshRef (load_rejected (start_rebuild p s)) = None
    \<and> scene_meshes (load_rejected (start_rebuild p s)) = []
    \<and> gpu_live (load_rejected (start_rebuild p s)) = []"
proof -
  let ?s1 = "start_rebuild p s"
  from assms(2) obtain vp where "mountRef s = Some vp" by auto
  from start_rebuild_clean [OF assms(1) this assms(3)]
  have lc: "loading_clean ?s1" .
  then have p1: "pending_loads ?s1 = 1" by (simp add: loading_clean_def)
  have ce: "console_errors ?s1 = console_errors s" by (simp add: start_rebuild_def)
  have la: "isLoadingAssets ?s1" using assms(2,3) by (rule isLoadingAssets_start_rebuild)
  have rej: "load_rejected ?s1 = catch_handler (?s1\<lparr>pending_loads := 0\<rparr>)"
    using p1 by (simp add: load_rejected_def)
  have again: "load_rejected (load_rejected ?s1) = load_rejected ?s1"
    unfolding rej by (simp add: load_rejected_def catch_handler_def)
  have sm: "scene_meshes (load_rejected ?s1) = scene_meshes ?s1"
    by (rule scene_meshes_cong) simp
  from lc have "meshRef ?s1 = None" "scene_meshes ?s1 = []" "gpu_live ?s1 = []"
    by (simp_all add: loading_clean_def)
  with la again sm ce show ?thesis by (simp add: rej)
qed

theorem load_failure_after_cleanup_witness:
  "console_errors (load_rejected (start_rebuild second_pair example_canvas))
     = Suc (console_errors example_canvas)
   \<and> \<not> isLoadingAssets (load_rejected (start_rebuild second_pair example_canvas))
   \<and> scene_meshes (load_rejected (start_rebuild second_pair example_canvas)) = []"
  using load_failure_after_cleanup [OF example_canvas_tidy(1,2) valid_examples(2)]
  by simp

text \<open>
  The mesh built from the first pair is in the ref; the inputs change and a load
  fails; the ref is null and the scene has no mesh.
\<close>

theorem load_failure_drops_prior_mesh:
  "meshRef example_canvas \<noteq> None
   \<and> scene_meshes example_canvas \<noteq> []
   \<and> meshRef (load_rejected (start_rebuild second_pair example_canvas)) = None
   \<and> scene_meshes (load_rejected (start_rebuild second_pair example_canvas)) = []"
proof -
  let ?s1 = "start_rebuild second_pair example_canvas"
  from example_canvas_tidy(2) obtain vp where "mountRef example_canvas = Some vp" by auto
  from start_rebuild_clean [OF example_canvas_tidy(1) this valid_examples(2)]
  have lc: "loading_clean ?s1" .
  have sm: "scene_meshes (load_rejected ?s1) = scene_meshes ?s1"
    by (rule scene_meshes_cong) simp
  have "scene_meshes example_canvas \<noteq> []"
    using example_canvas_tidy(1,3) by (auto simp: tidy_def mesh_attached_def)
  with lc sm example_canvas_tidy(3) show ?thesis by (simp add: loading_clean_def)
qed

subsection \<open>The tessellation of the plane\<close>

lemma aspectRatio_then_handler:
  "aspectRatio (then_handler t d s) = fdiv (real (image_width t)) (real (image_height t))"
  by (cases "sceneRef s")
    (simp_all add: then_handler_def Let_def new_PlaneGeometry_def new_MeshStandardMaterial_def
      new_Mesh_def catch_handler_def fit_camera_def update_controls_def
      split: option.splits prod.splits)

text \<open>The double quotients for images of 1200 by 1160 and of 1920 by 1080.\<close>

lemma fdiv_1200_1160: "fdiv 1200 1160 = 4658896166245341 / 2 ^ 52"
proof -
  have "to_double (30 / 29)
      = real_of_int (round_half_even (30 / 29 / 2 powi (0 - 52))) * 2 powi (0 - 52)"
    by (rule to_double_eval) simp_all
  also have "\<dots> = 4658896166245341 / 2 ^ 52"
    by (simp add: round_half_even_def Let_def)
  finally show ?thesis by (simp add: fdiv_def)
qed

lemma fdiv_255_by_1200_1160: "fdiv 255 (4658896166245341 / 2 ^ 52) = 8672947719897087 / 2 ^ 45"
proof -
  let ?y = "255 / (4658896166245341 / 2 ^ 52) :: real"
  have "to_double ?y = real_of_int (round_half_even (?y / 2 powi (7 - 52))) * 2 powi (7 - 52)"
    by (rule to_double_eval) simp_all
  also have "\<dots> = 8672947719897087 / 2 ^ 45"
    by (simp add: round_half_even_def Let_def)
  finally show ?thesis by (simp add: fdiv_def)
qed

lemma fdiv_1920_1080: "fdiv 1920 1080 = 8006399337547548 / 2 ^ 52"
proof -
  have "to_double (16 / 9)
      = real_of_int (round_half_even (16 / 9 / 2 powi (0 - 52))) * 2 powi (0 - 52)"
    by (rule to_double_eval) simp_all
  also have "\<dots> = 8006399337547548 / 2 ^ 52"
    by (simp add: round_half_even_def Let_def)
  finally show ?thesis by (simp add: fdiv_def)
qed

lemma fdiv_255_by_1920_1080: "fdiv 255 (8006399337547548 / 2 ^ 52) = 5046758371491840 / 2 ^ 45"
proof -
  let ?y = "255 / (8006399337547548 / 2 ^ 52) :: real"
  have "to_double ?y = real_of_int (round_half_even (?y / 2 powi (7 - 52))) * 2 powi (7 - 52)"
    by (rule to_double_eval) simp_all
  also have "\<dots> = 5046758371491840 / 2 ^ 45"
    by (simp add: round_half_even_def Let_def)
  finally show ?thesis by (simp add: fdiv_def)
qed

lemma fdiv_2_by_1920_1080: "fdiv 2 (8006399337547548 / 2 ^ 52) = 9 / 8"
proof -
  let ?y = "2 / (8006399337547548 / 2 ^ 52) :: real"
  have "to_double ?y = real_of_int (round_half_even (?y / 2 powi (0 - 52))) * 2 powi (0 - 52)"
    by (rule to_double_eval) simp_all
  also have "\<dots> = 9 / 8"
    by (simp add: round_half_even_def Let_def)
  finally show ?thesis by (simp add: fdiv_def)
qed

text \<open>
  C1: when both loads have succeeded for a colour image of positive width and height,
  the aspect ratio \<open>a\<close> of the handler is the JavaScript quotient width / height: a
  positive double within a relative \<open>2 ^ -53\<close> of the exact quotient. The mesh the handler
  puts in the ref has a plane geometry of width 2 and height \<open>2 / a\<close> with 255 segments
  across and \<open>Math.round(255 / a)\<close> segments down, both quotients being JavaScript's. The
  number of segments down is within \<open>1/2 + (255 / a) / 2 ^ 53\<close> of the real quotient
  \<open>255 / a\<close>, and it is the integer nearest to that real quotient, a tie going up,
  whenever the quotient is not within one rounding error of a half-integer.
\<close>

theorem mesh_geometry_tessellation:
  assumes "0 < image_width t" and "0 < image_height t"
    and "a = fdiv (real (image_width t)) (real (image_height t))"
  shows "aspectRatio (then_handler t d s) = a
    \<and> 0 < a
    \<and> \<bar>a - real (image_width t) / real (image_height t)\<bar>
         \<le> real (image_width t) / real (image_height t) / 2 ^ 53
    \<and> (\<exists>m. meshRef (then_handler t d s) = Some m
          \<and> widthSegments (geometry m) = 255
          \<and> heightSegments (geometry m) = js_round (fdiv 255 a)
          \<and> width (geometry m) = 2
          \<and> height (geometry m) = fdiv 2 a
          \<and> \<bar>real_of_int (heightSegments (geometry m)) - 255 / a\<bar> \<le> 1 / 2 + 255 / a / 2 ^ 53
          \<and> (js_round (255 / a - 255 / a / 2 ^ 53) = js_round (255 / a + 255 / a / 2 ^ 53)
               \<longrightarrow> heightSegments (geometry m) = js_round (255 / a)))"
proof -
  let ?x = "real (image_width t) / real (image_height t)"
  let ?y = "255 / a"
  let ?q = "fdiv 255 a"
  have x: "0 < ?x" using assms(1,2) by simp
  have a: "a = to_double ?x" by (simp add: assms(3) fdiv_def)
  have pos: "0 < a" unfolding a using x by (rule to_double_pos)
  have aerr: "\<bar>a - ?x\<bar> \<le> ?x / 2 ^ 53" unfolding a using x by (rule to_double_error)
  have y: "0 < ?y" using pos by simp
  have qerr: "\<bar>?q - ?y\<bar> \<le> ?y / 2 ^ 53"
    unfolding fdiv_def using y by (rule to_double_error)
  have near: "\<bar>real_of_int (js_round ?q) - ?y\<bar> \<le> 1 / 2 + ?y / 2 ^ 53"
    using js_round_near [of ?q] qerr by linarith
  have lo: "js_round (?y - ?y / 2 ^ 53) \<le> js_round ?q"
    by (rule js_round_mono) (use qerr in linarith)
  have hi: "js_round ?q \<le> js_round (?y + ?y / 2 ^ 53)"
    by (rule js_round_mono) (use qerr in linarith)
  have e0: "0 \<le> ?y / 2 ^ 53" using y by (intro divide_nonneg_pos) simp_all
  have lo': "js_round (?y - ?y / 2 ^ 53) \<le> js_round ?y"
    by (rule js_round_mono) (use e0 in linarith)
  have hi': "js_round ?y \<le> js_round (?y + ?y / 2 ^ 53)"
    by (rule js_round_mono) (use e0 in linarith)
  have exact: "js_round ?q = js_round ?y"
    if "js_round (?y - ?y / 2 ^ 53) = js_round (?y + ?y / 2 ^ 53)"
    using that lo hi lo' hi' by linarith
  from then_handler_mesh [of t d s] obtain m where
    m: "meshRef (then_handler t d s) = Some m"
       "geometry m = \<lparr>geo_id = next_id s, width = 2, height = fdiv 2 a, widthSegments = 255,
                       heightSegments = js_round ?q\<rparr>"
    unfolding assms(3) by blast
  have ar: "aspectRatio (then_handler t d s) = a"
    by (simp add: aspectRatio_then_handler assms(3))
  show ?thesis using pos ar aerr m near exact by simp
qed

theorem mesh_geometry_tessellation_witness:
  "(\<exists>m. meshRef (then_handler example_color_texture example_depth_texture initial_canvas) = Some m
        \<and> widthSegments (geometry m) = 255 \<and> heightSegments (geometry m) = 143
        \<and> heightSegments (geometry m) = js_round (255 / (8006399337547548 / 2 ^ 52))
        \<and> width (geometry m) = 2 \<and> height (geometry m) = 9 / 8)
   \<and> (\<exists>m. meshRef (then_handler tie_color_texture example_depth_texture initial_canvas) = Some m
        \<and> widthSegments (geometry m) = 255 \<and> heightSegments (geometry m) = 246
        \<and> width (geometry m) = 2)"
proof -
  have w: "0 < image_width example_color_texture" and h: "0 < image_height example_color_texture"
    by (simp_all add: example_color_texture_def)
  have a: "8006399337547548 / 2 ^ 52
      = fdiv (real (image_width example_color_texture)) (real (image_height example_color_texture))"
    by (simp add: example_color_texture_def fdiv_1920_1080)
  have r: "js_round (fdiv 255 (8006399337547548 / 2 ^ 52)) = 143"
    unfolding fdiv_255_by_1920_1080 by (simp add: js_round_def)
  have e: "js_round (255 / (8006399337547548 / 2 ^ 52) - 255 / (8006399337547548 / 2 ^ 52) / 2 ^ 53)
      = js_round (255 / (8006399337547548 / 2 ^ 52) + 255 / (8006399337547548 / 2 ^ 52) / 2 ^ 53)"
    by (simp add: js_round_def)
  from mesh_geometry_tessellation [OF w h a, of example_depth_texture initial_canvas] e
  have first: "\<exists>m. meshRef (then_handler example_color_texture example_depth_texture initial_canvas) = Some m
        \<and> widthSegments (geometry m) = 255 \<and> heightSegments (geometry m) = 143
        \<and> heightSegments (geometry m) = js_round (255 / (8006399337547548 / 2 ^ 52))
        \<and> width (geometry m) = 2 \<and> height (geometry m) = 9 / 8"
    unfolding r fdiv_2_by_1920_1080 by auto
  have w': "0 < image_width tie_color_texture" and h': "0 < image_height tie_color_texture"
    by (simp_all add: tie_color_texture_def)
  have a': "4658896166245341 / 2 ^ 52
      = fdiv (real (image_width tie_color_texture)) (real (image_height tie_color_texture))"
    by (simp add: tie_color_texture_def fdiv_1200_1160)
  have r': "js_round (fdiv 255 (4658896166245341 / 2 ^ 52)) = 246"
    unfolding fdiv_255_by_1200_1160 by (simp add: js_round_def)
  from mesh_geometry_tessellation [OF w' h' a', of example_depth_texture initial_canvas]
  have second: "\<exists>m. meshRef (then_handler tie_color_texture example_depth_texture initial_canvas) = Some m
        \<and> widthSegments (geometry m) = 255 \<and> heightSegments (geometry m) = 246
        \<and> width (geometry m) = 2"
    unfolding r' by blast
  from first second show ?thesis by (rule conjI)
qed

subsection \<open>Vectors and the orbit controls\<close>

lemma vlength_nonneg [simp]: "0 \<le> vlength v"
  by (cases v) (simp add: vlength_def)

lemma vlength_vscale: "vlength (vscale k v) = \<bar>k\<bar> * vlength v"
proof (cases v)
  case (fields x y z)
  have "(k * x)\<^sup>2 + (k * y)\<^sup>2 + (k * z)\<^sup>2 = k\<^sup>2 * (x\<^sup>2 + y\<^sup>2 + z\<^sup>2)"
    by (simp add: power_mult_distrib distrib_left)
  then show ?thesis
    by (simp add: fields vlength_def vscale_def real_sqrt_mult)
qed

lemma vsub_vadd [simp]: "vsub (vadd t v) t = v"
  by (cases t, cases v) (simp add: vsub_def vadd_def)

lemma vadd_vsub [simp]: "vadd t (vsub p t) = p"
  by (cases t, cases p) (simp add: vsub_def vadd_def)

lemma vscale_one [simp]: "vscale 1 v = v"
  by (cases v) (simp add: vscale_def)

lemma vsub_origin [simp]: "vsub p (0, 0, 0) = p"
  by (cases p) (simp add: vsub_def)

lemma vadd_origin [simp]: "vadd (0, 0, 0) p = p"
  by (cases p) (simp add: vadd_def)

lemma vlength_axis [simp]:
  "vlength (0, 0, z) = \<bar>z\<bar>" "vlength (0, y, 0) = \<bar>y\<bar>" "vlength (x, 0, 0) = \<bar>x\<bar>"
  by (simp_all add: vlength_def)

lemma clamp_distance_nonneg: "0 \<le> minDistance c \<Longrightarrow> 0 \<le> clamp_distance c r"
  by (simp add: clamp_distance_def max_def)

lemma clamp_distance_open:
  "minDistance c = 0 \<Longrightarrow> maxDistance c = None \<Longrightarrow> 0 \<le> r \<Longrightarrow> clamp_distance c r = r"
  by (simp add: clamp_distance_def)

lemma controls_update_controls: "snd (controls_update cam c) = c\<lparr>scale := 1\<rparr>"
  by (simp add: controls_update_def Let_def)

lemma controls_update_camera:
  "fov (fst (controls_update cam c)) = fov cam" "aspect (fst (controls_update cam c)) = aspect cam"
  by (simp_all add: controls_update_def Let_def)

text \<open>The distance from the target after an update is the clamped, scaled distance.\<close>

lemma controls_update_distance:
  assumes "0 < vlength (vsub (position cam) (target c))" and "0 \<le> minDistance c"
  shows "vlength (vsub (position (fst (controls_update cam c))) (target c))
     = clamp_distance c (vlength (vsub (position cam) (target c)) * scale c)"
proof -
  let ?r = "vlength (vsub (position cam) (target c))"
  let ?r' = "clamp_distance c (?r * scale c)"
  have "0 \<le> ?r'" using assms(2) by (rule clamp_distance_nonneg)
  then have "\<bar>?r' / ?r\<bar> * ?r = ?r'" using assms(1) by (simp add: abs_mult)
  with assms(1) show ?thesis
    by (simp add: controls_update_def Let_def vlength_vscale)
qed

text \<open>With no dolly pending and the distance inside the clamps an update moves nothing.\<close>

lemma controls_update_still:
  assumes "scale c = 1"
    and "clamp_distance c (vlength (vsub (position cam) (target c)))
           = vlength (vsub (position cam) (target c))"
  shows "position (fst (controls_update cam c)) = position cam"
  using assms by (simp add: controls_update_def Let_def)

subsection \<open>Preset views\<close>

lemma preset_position_length:
  "vlength (preset_position p d) =
     (if p = Top then sqrt ((if 0.1 < d then d else 1.5)\<^sup>2 + 0.001\<^sup>2)
      else \<bar>if 0.1 < d then d else 1.5\<bar>)"
  by (cases p) (simp_all add: preset_position_def Let_def vlength_def)

lemma setPresetView_result:
  assumes "cameraRef s = Some cam" and "controlsRef s = Some c" and "component_controls c"
  shows "cameraRef (setPresetView p s) =
           Some (cam\<lparr>position := preset_position p (vlength (position cam))\<rparr>)
    \<and> controlsRef (setPresetView p s) = Some (c\<lparr>target := (0, 0, 0)\<rparr>)"
proof -
  let ?pp = "preset_position p (vlength (position cam))"
  let ?c0 = "c\<lparr>target := target0 c\<rparr>"
  let ?cam0 = "cam\<lparr>position := position0 c\<rparr>"
  from assms(3) have cc: "target0 c = (0, 0, 0)" "minDistance c = 0" "maxDistance c = None"
    "scale c = 1"
    by (simp_all add: component_controls_def)
  obtain cam1 c1 where r: "controls_reset cam c = (cam1, c1)" by (cases "controls_reset cam c")
  have c1: "c1 = ?c0\<lparr>scale := 1\<rparr>"
    using r controls_update_controls [of ?cam0 ?c0] by (simp add: controls_reset_def)
  have f1: "fov cam1 = fov cam" "aspect cam1 = aspect cam"
    using r controls_update_camera [of ?cam0 ?c0] by (simp_all add: controls_reset_def)
  let ?cam2 = "cam1\<lparr>position := ?pp\<rparr>"
  have cam2: "?cam2 = cam\<lparr>position := ?pp\<rparr>" using f1 by simp
  have open1: "clamp_distance c1 (vlength (vsub (position ?cam2) (target c1)))
                 = vlength (vsub (position ?cam2) (target c1))"
    by (rule clamp_distance_open) (simp_all add: c1 cc)
  have sc1: "scale c1 = 1" by (simp add: c1)
  have pos: "position (fst (controls_update ?cam2 c1)) = ?pp"
    using controls_update_still [OF sc1 open1] by simp
  have cam': "fst (controls_update ?cam2 c1) = cam\<lparr>position := ?pp\<rparr>"
    using pos controls_update_camera [of ?cam2 c1] f1 by simp
  have c': "snd (controls_update ?cam2 c1) = c\<lparr>target := (0, 0, 0)\<rparr>"
    using controls_update_controls [of ?cam2 c1] cc by (simp add: c1)
  show ?thesis
    using assms(1,2) r cam' c'
    by (simp add: setPresetView_def Let_def split: prod.splits) (metis fst_conv snd_conv)
qed

lemma init_three_controls:
  "controlsRef (init_three vp s) =
     Some \<lparr>target = (0, 0, 0), enableDamping = True, dampingFactor = 0.05, minDistance = 0,
           maxDistance = None, target0 = (0, 0, 0), position0 = (0, 0, 1.5), scale = 1\<rparr>"
  "cameraRef (init_three vp s) =
     Some \<lparr>fov = 75, aspect = real (fst vp) / real (snd vp), position = (0, 0, 1.5)\<rparr>"
  by (simp_all add: init_three_def)

lemma init_three_component_controls:
  "component_controls \<lparr>target = (0, 0, 0), enableDamping = True, dampingFactor = 0.05,
     minDistance = 0, maxDistance = None, target0 = (0, 0, 0), position0 = (0, 0, 1.5), scale = 1\<rparr>"
  by (simp add: component_controls_def)

text \<open>
  C8, as the code has it. With \<open>d\<close> the length of the camera position when a preset is
  invoked and \<open>d > 0.1\<close>: \<open>top\<close> puts the camera at \<open>(0, d, 0.001)\<close>, \<open>front\<close> and \<open>reset\<close>
  at \<open>(0, 0, d)\<close>, \<open>sideR\<close> at \<open>(d, 0, 0)\<close> and \<open>sideL\<close> at \<open>(-d, 0, 0)\<close>; the orbit
  target is the origin afterwards; the distance from the target is \<open>d\<close> again, except
  for \<open>top\<close>, where the offset makes it \<open>sqrt (d\<^sup>2 + 0.001\<^sup>2)\<close>. At \<open>d \<le> 0.1\<close> the
  code uses 1.5 in place of \<open>d\<close>.
\<close>

theorem setPresetView_exact:
  assumes "cameraRef s = Some cam" and "controlsRef s = Some c" and "component_controls c"
  shows "\<exists>cam' c'. cameraRef (setPresetView p s) = Some cam'
      \<and> controlsRef (setPresetView p s) = Some c'
      \<and> target c' = (0, 0, 0)
      \<and> (0.1 < vlength (position cam) \<longrightarrow>
            position cam' =
              (case p of
                 Front \<Rightarrow> (0, 0, vlength (position cam))
               | Reset \<Rightarrow> (0, 0, vlength (position cam))
               | Top \<Rightarrow> (0, vlength (position cam), 0.001)
               | SideR \<Rightarrow> (vlength (position cam), 0, 0)
               | SideL \<Rightarrow> (- vlength (position cam), 0, 0))
            \<and> orbit_distance (setPresetView p s) =
                 (if p = Top then sqrt ((vlength (position cam))\<^sup>2 + 0.001\<^sup>2)
                  else vlength (position cam)))
      \<and> (vlength (position cam) \<le> 0.1 \<longrightarrow>
            position cam' =
              (case p of
                 Front \<Rightarrow> (0, 0, 1.5)
               | Reset \<Rightarrow> (0, 0, 1.5)
               | Top \<Rightarrow> (0, 1.5, 0.001)
               | SideR \<Rightarrow> (1.5, 0, 0)
               | SideL \<Rightarrow> (- 1.5, 0, 0)))"
proof -
  let ?d = "vlength (position cam)"
  let ?cam' = "cam\<lparr>position := preset_position p ?d\<rparr>"
  let ?c' = "c\<lparr>target := (0, 0, 0)\<rparr>"
  from setPresetView_result [OF assms, of p]
  have r: "cameraRef (setPresetView p s) = Some ?cam'" "controlsRef (setPresetView p s) = Some ?c'"
    by simp_all
  have far: "position ?cam' =
      (case p of Front \<Rightarrow> (0, 0, ?d) | Reset \<Rightarrow> (0, 0, ?d) | Top \<Rightarrow> (0, ?d, 0.001)
       | SideR \<Rightarrow> (?d, 0, 0) | SideL \<Rightarrow> (- ?d, 0, 0))" if "0.1 < ?d"
    using that by (cases p) (simp_all add: preset_position_def)
  have dist: "orbit_distance (setPresetView p s) =
      (if p = Top then sqrt (?d\<^sup>2 + 0.001\<^sup>2) else ?d)" if "0.1 < ?d"
    using that by (simp add: orbit_distance_def r preset_position_length)
  have near: "position ?cam' =
      (case p of Front \<Rightarrow> (0, 0, 1.5) | Reset \<Rightarrow> (0, 0, 1.5) | Top \<Rightarrow> (0, 1.5, 0.001)
       | SideR \<Rightarrow> (1.5, 0, 0) | SideL \<Rightarrow> (- 1.5, 0, 0))" if "?d \<le> 0.1"
    using that by (cases p) (simp_all add: preset_position_def)
  show ?thesis
    using r far dist near by (intro exI [of _ ?cam'] exI [of _ ?c']) simp
qed

lemma orbited_canvas_refs:
  "cameraRef orbited_canvas = Some \<lparr>fov = 75, aspect = 4 / 3, position = (3, 0, 4)\<rparr>"
  "controlsRef orbited_canvas =
     Some \<lparr>target = (0, 0, 0), enableDamping = True, dampingFactor = 0.05, minDistance = 0,
           maxDistance = None, target0 = (0, 0, 0), position0 = (0, 0, 1.5), scale = 1\<rparr>"
  by (simp_all add: orbited_canvas_def init_three_def)

lemma vlength_3_0_4: "vlength (3, 0, 4) = 5"
proof -
  have "sqrt (5\<^sup>2) = 5" by (simp only: real_sqrt_abs abs_numeral)
  then show ?thesis by (simp add: vlength_def)
qed

theorem setPresetView_exact_witness:
  "\<exists>cam' c'. cameraRef (setPresetView Top orbited_canvas) = Some cam'
      \<and> controlsRef (setPresetView Top orbited_canvas) = Some c'
      \<and> target c' = (0, 0, 0) \<and> position cam' = (0, 5, 0.001)"
proof -
  from setPresetView_exact [OF orbited_canvas_refs init_three_component_controls, of Top]
  have "\<exists>cam' c'. cameraRef (setPresetView Top orbited_canvas) = Some cam'
      \<and> controlsRef (setPresetView Top orbited_canvas) = Some c'
      \<and> target c' = (0, 0, 0) \<and> position cam' = (0, 5, 0.001)
      \<and> orbit_distance (setPresetView Top orbited_canvas) = sqrt (5\<^sup>2 + 0.001\<^sup>2)"
    by (simp add: vlength_3_0_4)
  then show ?thesis by blast
qed

lemma close_canvas_refs:
  "cameraRef close_canvas = Some \<lparr>fov = 75, aspect = 4 / 3, position = (0, 0, 0.05)\<rparr>"
  "controlsRef close_canvas =
     Some \<lparr>target = (0, 0, 0), enableDamping = True, dampingFactor = 0.05, minDistance = 0,
           maxDistance = None, target0 = (0, 0, 0), position0 = (0, 0, 1.5), scale = 1\<rparr>"
  by (simp_all add: close_canvas_def init_three_def)

text \<open>
  With the camera at \<open>(0, 0, 0.05)\<close>, distance 0.05 from the origin, \<open>front\<close> puts it at
  \<open>(0, 0, 1.5)\<close>, not at \<open>(0, 0, 0.05)\<close>, and the distance becomes 1.5.
\<close>

theorem setPresetView_near_fallback:
  "orbit_distance close_canvas = 0.05
   \<and> cameraRef (setPresetView Front close_canvas)
        = Some \<lparr>fov = 75, aspect = 4 / 3, position = (0, 0, 1.5)\<rparr>
   \<and> orbit_distance (setPresetView Front close_canvas) = 1.5"
proof -
  from setPresetView_result [OF close_canvas_refs init_three_component_controls, of Front]
  have r: "cameraRef (setPresetView Front close_canvas)
             = Some \<lparr>fov = 75, aspect = 4 / 3, position = (0, 0, 1.5)\<rparr>"
    "controlsRef (setPresetView Front close_canvas)
             = Some \<lparr>target = (0, 0, 0), enableDamping = True, dampingFactor = 0.05,
                 minDistance = 0, maxDistance = None, target0 = (0, 0, 0),
                 position0 = (0, 0, 1.5), scale = 1\<rparr>"
    by (simp_all add: preset_position_def)
  have "orbit_distance close_canvas = 0.05"
    by (simp add: orbit_distance_def close_canvas_refs)
  moreover have "orbit_distance (setPresetView Front close_canvas) = 1.5"
    by (simp add: orbit_distance_def r)
  ultimately show ?thesis using r(1) by simp
qed

subsection \<open>Zoom\<close>

lemma handleZoom_refs:
  assumes "cameraRef s = Some cam" and "controlsRef s = Some c"
  shows "cameraRef (handleZoom f s) = Some (fst (controls_update cam (dollyOut f c)))"
    and "controlsRef (handleZoom f s) = Some (c\<lparr>scale := 1\<rparr>)"
  using assms controls_update_controls [of cam "dollyOut f c"]
  by (auto simp: handleZoom_def dollyOut_def split: prod.splits)

lemma handleZoom_distance:
  assumes "cameraRef s = Some cam" and "controlsRef s = Some c"
    and "0 \<le> minDistance c" and "0 < orbit_distance s"
  shows "orbit_distance (handleZoom f s) = clamp_distance c (orbit_distance s * (scale c / f))"
proof -
  let ?c = "dollyOut f c"
  have d: "orbit_distance s = vlength (vsub (position cam) (target ?c))"
    using assms(1,2) by (simp add: orbit_distance_def dollyOut_def)
  have "vlength (vsub (position (fst (controls_update cam ?c))) (target ?c))
      = clamp_distance ?c (vlength (vsub (position cam) (target ?c)) * scale ?c)"
    by (rule controls_update_distance) (use assms(3,4) d in \<open>simp_all add: dollyOut_def\<close>)
  then show ?thesis
    using handleZoom_refs [OF assms(1,2), of f] d
    by (simp add: orbit_distance_def dollyOut_def clamp_distance_def)
qed

lemma handleZoom_component:
  assumes "cameraRef s = Some cam" and "controlsRef s = Some c" and "component_controls c"
    and "0 < orbit_distance s" and "0 < f"
  shows "controlsRef (handleZoom f s) = Some c"
    and "\<exists>cam'. cameraRef (handleZoom f s) = Some cam'"
    and "orbit_distance (handleZoom f s) = orbit_distance s / f"
proof -
  from assms(3) have cc: "minDistance c = 0" "maxDistance c = None" "scale c = 1"
    by (simp_all add: component_controls_def)
  have "c\<lparr>scale := 1\<rparr> = c" using cc(3) by simp
  then show "controlsRef (handleZoom f s) = Some c"
    using handleZoom_refs(2) [OF assms(1,2), of f] by simp
  show "\<exists>cam'. cameraRef (handleZoom f s) = Some cam'"
    using handleZoom_refs(1) [OF assms(1,2), of f] by simp
  have "orbit_distance (handleZoom f s) = clamp_distance c (orbit_distance s * (scale c / f))"
    by (rule handleZoom_distance [OF assms(1,2)]) (use cc assms(4) in simp_all)
  also have "\<dots> = orbit_distance s / f"
    using cc assms(4,5) by (simp add: clamp_distance_open)
  finally show "orbit_distance (handleZoom f s) = orbit_distance s / f" .
qed

lemma handleZoom_iterated:
  assumes "controlsRef s = Some c" and "component_controls c"
    and "0 < orbit_distance s" and "0 < f"
  shows "controlsRef ((handleZoom f ^^ k) s) = Some c
    \<and> orbit_distance ((handleZoom f ^^ k) s) = orbit_distance s / f ^ k"
proof (induction k)
  case 0
  with assms show ?case by simp
next
  case (Suc k)
  let ?s = "(handleZoom f ^^ k) s"
  from Suc have c: "controlsRef ?s = Some c" and d: "orbit_distance ?s = orbit_distance s / f ^ k"
    by simp_all
  have pos: "0 < orbit_distance ?s" using d assms(3,4) by simp
  then obtain cam where cam: "cameraRef ?s = Some cam"
    by (cases "cameraRef ?s") (simp_all add: orbit_distance_def)
  from handleZoom_component [OF cam c assms(2) pos assms(4)] d
  show ?case by simp
qed

lemma loading_canvas_refs:
  "cameraRef loading_canvas = Some \<lparr>fov = 75, aspect = 4 / 3, position = (0, 0, 1.5)\<rparr>"
  "controlsRef loading_canvas =
     Some \<lparr>target = (0, 0, 0), enableDamping = True, dampingFactor = 0.05, minDistance = 0,
           maxDistance = None, target0 = (0, 0, 0), position0 = (0, 0, 1.5), scale = 1\<rparr>"
  by (simp_all add: loading_canvas_def start_rebuild_def set_inputs_def effect_run_def
      effect_cleanup_def example_pair_def truthy_def mount_def initial_canvas_def Let_def
      init_three_def cleanupScene_def animate_def update_controls_def render_def
      controls_update_def clamp_distance_def vscale_def)

lemma loading_canvas_distance: "orbit_distance loading_canvas = 1.5"
  by (simp add: orbit_distance_def loading_canvas_refs)

text \<open>
  C9, as the code has it. The zoom buttons dolly by 1.2 and by 0.8, and the component
  leaves the clamps of its controls at 0 and unbounded. From any positive distance,
  \<open>k\<close> zoom-ins give the distance divided by \<open>1.2 ^ k\<close>: it falls strictly with each
  one, stays positive and gets below every positive bound. \<open>k\<close> zoom-outs give the
  distance divided by \<open>0.8 ^ k\<close>: it grows strictly and past every bound. A zoom-in and a
  zoom-out, in either order, leave the distance divided by 0.96.
\<close>

theorem zoom_distance:
  assumes "controlsRef s = Some c" and "component_controls c" and "0 < orbit_distance s"
  shows "orbit_distance ((zoom_in ^^ k) s) = orbit_distance s / 1.2 ^ k
    \<and> orbit_distance ((zoom_in ^^ Suc k) s) < orbit_distance ((zoom_in ^^ k) s)
    \<and> 0 < orbit_distance ((zoom_in ^^ k) s)
    \<and> (\<forall>e>0. \<exists>n. orbit_distance ((zoom_in ^^ n) s) < e)
    \<and> orbit_distance ((zoom_out ^^ k) s) = orbit_distance s / 0.8 ^ k
    \<and> orbit_distance ((zoom_out ^^ k) s) < orbit_distance ((zoom_out ^^ Suc k) s)
    \<and> (\<forall>M. \<exists>n. M < orbit_distance ((zoom_out ^^ n) s))
    \<and> orbit_distance (zoom_out (zoom_in s)) = orbit_distance s / 0.96
    \<and> orbit_distance (zoom_in (zoom_out s)) = orbit_distance s / 0.96"
proof -
  let ?d = "orbit_distance s"
  have zi: "orbit_distance ((zoom_in ^^ n) s) = ?d / 1.2 ^ n"
    and ci: "controlsRef ((zoom_in ^^ n) s) = Some c" for n
    using handleZoom_iterated [OF assms, of "1.2" n] by (simp_all add: zoom_in_def)
  have zo: "orbit_distance ((zoom_out ^^ n) s) = ?d / 0.8 ^ n"
    and co: "controlsRef ((zoom_out ^^ n) s) = Some c" for n
    using handleZoom_iterated [OF assms, of "0.8" n] by (simp_all add: zoom_out_def)
  have dec: "orbit_distance ((zoom_in ^^ Suc k) s) < orbit_distance ((zoom_in ^^ k) s)"
    unfolding zi using assms(3) by (simp add: field_simps)
  have pos: "0 < orbit_distance ((zoom_in ^^ k) s)"
    unfolding zi using assms(3) by simp
  have inc: "orbit_distance ((zoom_out ^^ k) s) < orbit_distance ((zoom_out ^^ Suc k) s)"
    unfolding zo using assms(3) by (simp add: field_simps)
  have small: "\<exists>n. orbit_distance ((zoom_in ^^ n) s) < e" if "0 < e" for e :: real
  proof -
    from real_arch_pow [of "1.2" "?d / e"] obtain n where "?d / e < 1.2 ^ n" by auto
    with that have "?d / 1.2 ^ n < e" by (simp add: field_simps)
    then show ?thesis unfolding zi by blast
  qed
  have large: "\<exists>n. M < orbit_distance ((zoom_out ^^ n) s)" for M
  proof -
    from real_arch_pow [of "1.25" "M / ?d"] obtain n where n: "M / ?d < 1.25 ^ n" by auto
    have "(1.25 :: real) ^ n = 1 / 0.8 ^ n" by (simp add: power_divide flip: power_one_over)
    with n assms(3) have "M < ?d / 0.8 ^ n" by (simp add: field_simps)
    then show ?thesis unfolding zo by blast
  qed
  have one_in: "orbit_distance (zoom_in s) = ?d / 1.2" and c1: "controlsRef (zoom_in s) = Some c"
    using zi [of 1] ci [of 1] by simp_all
  have one_out: "orbit_distance (zoom_out s) = ?d / 0.8" and c2: "controlsRef (zoom_out s) = Some c"
    using zo [of 1] co [of 1] by simp_all
  have io: "orbit_distance (zoom_out (zoom_in s)) = ?d / 0.96"
    using handleZoom_iterated [OF c1 assms(2), of "0.8" 1] assms(3)
    by (simp add: one_in zoom_out_def)
  have oi: "orbit_distance (zoom_in (zoom_out s)) = ?d / 0.96"
    using handleZoom_iterated [OF c2 assms(2), of "1.2" 1] assms(3)
    by (simp add: one_out zoom_in_def)
  show ?thesis using zi zo dec pos inc small large io oi by blast
qed

theorem zoom_distance_witness:
  "orbit_distance loading_canvas = 1.5
   \<and> orbit_distance ((zoom_in ^^ 2) loading_canvas) = 1.5 / 1.44
   \<and> orbit_distance ((zoom_out ^^ 2) loading_canvas) = 1.5 / 0.64
   \<and> orbit_distance (zoom_out (zoom_in loading_canvas)) = 1.5625"
proof -
  have p: "0 < orbit_distance loading_canvas" by (simp add: loading_canvas_distance)
  from zoom_distance [OF loading_canvas_refs(2) init_three_component_controls p, of 2]
  show ?thesis by (simp add: loading_canvas_distance power2_eq_square)
qed

text \<open>
  From the distance 1.5 a zoom-in and then a zoom-out lead to 1.5625: the two do not
  undo each other, and no clamp is involved.
\<close>

theorem zoom_in_out_not_inverse:
  "orbit_distance loading_canvas = 1.5
   \<and> orbit_distance (zoom_in loading_canvas) = 1.25
   \<and> orbit_distance (zoom_out (zoom_in loading_canvas)) = 1.5625"
proof -
  have p: "0 < orbit_distance loading_canvas" by (simp add: loading_canvas_distance)
  from handleZoom_iterated [OF loading_canvas_refs(2) init_three_component_controls p, of "1.2" 1]
  have i: "controlsRef (zoom_in loading_canvas) = Some \<lparr>target = (0, 0, 0), enableDamping = True,
      dampingFactor = 0.05, minDistance = 0, maxDistance = None, target0 = (0, 0, 0),
      position0 = (0, 0, 1.5), scale = 1\<rparr>"
    "orbit_distance (zoom_in loading_canvas) = 1.25"
    by (simp_all add: zoom_in_def loading_canvas_distance)
  have p': "0 < orbit_distance (zoom_in loading_canvas)" by (simp add: i(2))
  from handleZoom_iterated [OF i(1) init_three_component_controls p', of "0.8" 1]
  have "orbit_distance (zoom_out (zoom_in loading_canvas)) = 1.5625"
    by (simp add: zoom_out_def i(2))
  with i(2) loading_canvas_distance show ?thesis by simp
qed

subsection \<open>The recording loop\<close>

lemma set_rotation_y_frame [simp]:
  "recorderRef (set_rotation_y y s) = recorderRef s"
  "recording_tick (set_rotation_y y s) = recording_tick s"
  "stop_pending (set_rotation_y y s) = stop_pending s"
  "downloads (set_rotation_y y s) = downloads s"
  "export_signals (set_rotation_y y s) = export_signals s"
  "isRecording (set_rotation_y y s) = isRecording s"
  "gpu_live (set_rotation_y y s) = gpu_live s"
  "rendererRef (set_rotation_y y s) = rendererRef s"
  "cameraRef (set_rotation_y y s) = cameraRef s"
  "controlsRef (set_rotation_y y s) = controlsRef s"
  "mountRef (set_rotation_y y s) = mountRef s"
  "animate_pending (set_rotation_y y s) = animate_pending s"
  "meshRef (set_rotation_y y s) = map_option (\<lambda>m. m\<lparr>rotation_y := y\<rparr>) (meshRef s)"
  by (simp_all add: set_rotation_y_def split: option.splits)

lemma sceneRef_set_rotation_y_None [simp]:
  "(sceneRef (set_rotation_y y s) = None) = (sceneRef s = None)"
  by (simp add: set_rotation_y_def split: option.splits)

text \<open>The write reaches the mesh in the scene as well.\<close>

lemma scene_meshes_set_rotation_y:
  assumes "mesh_attached s"
  shows "mesh_attached (set_rotation_y y s)"
proof (cases "meshRef s")
  case None
  with assms show ?thesis by (simp add: set_rotation_y_def mesh_attached_def)
next
  case (Some m)
  with assms have sm: "scene_meshes s = [m]" by (simp add: mesh_attached_def)
  then obtain sc where sc: "sceneRef s = Some sc"
    by (cases "sceneRef s") (auto simp: scene_meshes_def)
  have "concat (map (\<lambda>ob. case ob of MeshObject x \<Rightarrow> [x] | _ \<Rightarrow> [])
          (map (\<lambda>ob. if is_mesh (mesh_id m) ob then MeshObject (m\<lparr>rotation_y := y\<rparr>) else ob) obs))
        = map (\<lambda>x. if mesh_id x = mesh_id m then m\<lparr>rotation_y := y\<rparr> else x)
            (concat (map (\<lambda>ob. case ob of MeshObject x \<Rightarrow> [x] | _ \<Rightarrow> []) obs))" for obs
    by (induction obs) (auto simp: is_mesh_def split: object3d.splits)
  with sm sc Some show ?thesis
    by (simp add: set_rotation_y_def mesh_attached_def scene_meshes_def)
qed

text \<open>
  C4: while the recorder is recording, the scheduled callback run at time \<open>now\<close> with
  \<open>elapsed = now - startTime\<close> does this. If \<open>elapsed < 5000\<close>, the yaw of the mesh (when
  there is one) becomes \<open>initial + (elapsed / 5000) * 2 * pi\<close>, which for
  \<open>0 \<le> elapsed\<close> lies from \<open>initial\<close> up to, but not at, one full turn beyond it, and
  the callback is scheduled again. If \<open>elapsed \<ge> 5000\<close>, nothing is scheduled, the yaw
  is back at \<open>initial\<close>, the recorder is stopped, and later frames change nothing.
\<close>

theorem animateRecording_rotation:
  assumes "recorderRef s = Some r" and "is_recording r"
    and "recording_tick s = Some (initial, startTime)"
  shows "(now - startTime < 5000 \<longrightarrow>
          recording_tick (recording_frame now s) = Some (initial, startTime)
          \<and> meshRef (recording_frame now s) =
               map_option (\<lambda>m. m\<lparr>rotation_y :=
                    initial + (real_of_int (now - startTime) / 5000) * pi * 2\<rparr>) (meshRef s)
          \<and> recorderRef (recording_frame now s) = Some r
          \<and> stop_pending (recording_frame now s) = stop_pending s
          \<and> (0 \<le> now - startTime \<longrightarrow>
                initial \<le> initial + (real_of_int (now - startTime) / 5000) * pi * 2
                \<and> initial + (real_of_int (now - startTime) / 5000) * pi * 2 < initial + 2 * pi))
    \<and> (5000 \<le> now - startTime \<longrightarrow>
          recording_tick (recording_frame now s) = None
          \<and> meshRef (recording_frame now s) =
               map_option (\<lambda>m. m\<lparr>rotation_y := initial\<rparr>) (meshRef s)
          \<and> recorderRef (recording_frame now s) = Some (r\<lparr>rstate := Stopped\<rparr>)
          \<and> stop_pending (recording_frame now s) = Suc (stop_pending s)
          \<and> recording_frame later (recording_frame now s) = recording_frame now s)"
proof -
  let ?e = "now - startTime"
  have early: "recording_frame now s =
      (set_rotation_y (initial + (real_of_int ?e / 5000) * pi * 2) (s\<lparr>recording_tick := None\<rparr>))
        \<lparr>recording_tick := Some (initial, startTime)\<rparr>" if "?e < 5000"
    using assms that by (simp add: recording_frame_def animateRecording_def duration_def Let_def)
  have late: "recording_frame now s =
      set_rotation_y initial (stopRecordingAndDownload (s\<lparr>recording_tick := None\<rparr>))" if "5000 \<le> ?e"
    using assms that by (simp add: recording_frame_def animateRecording_def duration_def Let_def)
  have range: "initial \<le> initial + (real_of_int ?e / 5000) * pi * 2
      \<and> initial + (real_of_int ?e / 5000) * pi * 2 < initial + 2 * pi" if "0 \<le> ?e" "?e < 5000"
  proof -
    have "0 \<le> real_of_int ?e / 5000" "real_of_int ?e / 5000 < 1" using that by simp_all
    then have "0 \<le> (real_of_int ?e / 5000) * (pi * 2)" "(real_of_int ?e / 5000) * (pi * 2) < 1 * (pi * 2)"
      by (simp_all add: mult_less_cancel_right)
    then show ?thesis by (simp add: mult.assoc)
  qed
  have stopped: "recording_tick (recording_frame now s) = None
      \<and> meshRef (recording_frame now s) = map_option (\<lambda>m. m\<lparr>rotation_y := initial\<rparr>) (meshRef s)
      \<and> recorderRef (recording_frame now s) = Some (r\<lparr>rstate := Stopped\<rparr>)
      \<and> stop_pending (recording_frame now s) = Suc (stop_pending s)" if "5000 \<le> ?e"
    using assms(1) by (simp add: late [OF that] stopRecordingAndDownload_def)
  have after: "recording_frame later (recording_frame now s) = recording_frame now s" if "5000 \<le> ?e"
    using stopped [OF that] by (simp add: recording_frame_def)
  show ?thesis
    using assms(1) early range stopped after by simp
qed

subsection \<open>The phases of an export session\<close>

lemma example_canvas_refs:
  "rendererRef example_canvas \<noteq> None" "sceneRef example_canvas \<noteq> None"
  "cameraRef example_canvas \<noteq> None" "controlsRef example_canvas \<noteq> None"
proof -
  let ?m = "mount (800, 600) initial_canvas"
  have lc: "loading_clean (start_rebuild example_pair ?m)"
    by (rule start_rebuild_clean [OF tidy_mounted_initial(1) _ valid_examples(1)])
      (simp add: mount_def)
  then show r: "rendererRef example_canvas \<noteq> None"
    by (simp add: example_canvas_def rebuild_def loading_clean_def)
  with example_canvas_tidy(1) show "sceneRef example_canvas \<noteq> None"
    by (simp add: tidy_def)
  have l: "cameraRef loading_canvas \<noteq> None" "controlsRef loading_canvas \<noteq> None"
    by (simp_all add: loading_canvas_refs)
  have keep: "cameraRef (load_resolved im dm s) \<noteq> None \<and> controlsRef (load_resolved im dm s) \<noteq> None"
    if "cameraRef s \<noteq> None" "controlsRef s \<noteq> None" for im dm s
    using that
    by (cases "sceneRef s")
      (auto simp: load_resolved_def new_texture_def then_handler_def Let_def
        new_PlaneGeometry_def new_MeshStandardMaterial_def new_Mesh_def catch_handler_def
        fit_camera_def update_controls_def split: option.splits prod.splits)
  from keep [OF l] show "cameraRef example_canvas \<noteq> None" "controlsRef example_canvas \<noteq> None"
    by (simp_all add: example_canvas_def rebuild_def loading_canvas_def)
qed

lemma example_canvas_idle: "export_idle example_canvas"
  by (simp add: export_idle_def example_canvas_def rebuild_def start_rebuild_def mount_def
      initial_canvas_def)

lemma example_canvas_rotation: "map_option rotation_y (meshRef example_canvas) = Some 0"
proof -
  let ?s = "start_rebuild example_pair (mount (800, 600) initial_canvas)"
  have "loading_clean ?s"
    by (rule start_rebuild_clean [OF tidy_mounted_initial(1) _ valid_examples(1)])
      (simp add: mount_def)
  then have "pending_loads ?s \<noteq> 0" by (simp add: loading_clean_def)
  from load_resolved_result [OF this, of "originalSize example_pair" "depthSize example_pair"]
  show ?thesis by (auto simp: example_canvas_def rebuild_def)
qed

lemma startRecording_early:
  assumes "rendererRef s \<noteq> None" and "sceneRef s \<noteq> None" and "cameraRef s \<noteq> None"
    and "now - startTime < 5000"
  shows "startRecording startTime now s =
    (set_rotation_y
       ((case meshRef s of None \<Rightarrow> 0 | Some m \<Rightarrow> rotation_y m)
          + (real_of_int (now - startTime) / 5000) * pi * 2)
       (s\<lparr>export_signals := export_signals s @ [True], isRecording := True,
           recorderRef := Some \<lparr>rstate = Recording\<rparr>\<rparr>))
      \<lparr>recording_tick := Some (case meshRef s of None \<Rightarrow> 0 | Some m \<Rightarrow> rotation_y m, startTime)\<rparr>"
  using assms
  by (auto simp: startRecording_def animateRecording_def Let_def is_recording_def duration_def)

lemma startRecording_late:
  assumes "rendererRef s \<noteq> None" and "sceneRef s \<noteq> None" and "cameraRef s \<noteq> None"
    and "5000 \<le> now - startTime"
  shows "startRecording startTime now s =
    set_rotation_y (case meshRef s of None \<Rightarrow> 0 | Some m \<Rightarrow> rotation_y m)
      (s\<lparr>export_signals := export_signals s @ [True], isRecording := True,
          recorderRef := Some \<lparr>rstate = Stopped\<rparr>, stop_pending := Suc (stop_pending s)\<rparr>)"
  using assms
  by (auto simp: startRecording_def animateRecording_def Let_def is_recording_def duration_def
      stopRecordingAndDownload_def)

lemma startRecording_phase:
  assumes "export_idle s" and "rendererRef s \<noteq> None" and "sceneRef s \<noteq> None"
    and "cameraRef s \<noteq> None"
  shows "capturing (case meshRef s of None \<Rightarrow> 0 | Some m \<Rightarrow> rotation_y m, startTime) s
           (startRecording startTime now s)
       \<or> finalizing (case meshRef s of None \<Rightarrow> 0 | Some m \<Rightarrow> rotation_y m, startTime) s
           (startRecording startTime now s)"
proof (cases "now - startTime < 5000")
  case True
  from assms(1) show ?thesis
    unfolding startRecording_early [OF assms(2-4) True]
    by (simp add: capturing_def export_idle_def option.map_comp comp_def)
next
  case False
  then have late: "5000 \<le> now - startTime" by simp
  from assms(1) show ?thesis
    unfolding startRecording_late [OF assms(2-4) late]
    by (simp add: finalizing_def export_idle_def option.map_comp comp_def)
qed

lemma capturing_step:
  assumes "capturing cl s0 s"
  shows "capturing cl s0 (export_step e s) \<or> finalizing cl s0 (export_step e s)"
proof (cases e)
  case StopDone
  with assms show ?thesis by (simp add: capturing_def recorder_stopped_def)
next
  case (Frame now)
  obtain y0 t0 where cl: "cl = (y0, t0)" by (cases cl)
  from assms have none: "(meshRef s = None) = (meshRef s0 = None)"
    by (cases "meshRef s"; cases "meshRef s0") (simp_all add: capturing_def)
  show ?thesis
  proof (cases "now - t0 < 5000")
    case True
    with assms Frame cl have "capturing cl s0 (export_step e s)"
      by (simp add: capturing_def recording_frame_def animateRecording_def Let_def
          is_recording_def duration_def option.map_comp comp_def)
    then show ?thesis ..
  next
    case False
    with assms Frame cl none have "finalizing cl s0 (export_step e s)"
      by (cases "meshRef s"; cases "meshRef s0")
        (simp_all add: capturing_def finalizing_def recording_frame_def animateRecording_def
          Let_def is_recording_def duration_def stopRecordingAndDownload_def)
    then show ?thesis ..
  qed
qed

lemma finalizing_step:
  assumes "finalizing cl s0 s"
  shows "finalizing cl s0 (export_step e s) \<or> finished cl s0 (export_step e s)"
proof (cases e)
  case (Frame now)
  with assms show ?thesis by (simp add: finalizing_def recording_frame_def)
next
  case StopDone
  with assms have "finished cl s0 (export_step e s)"
    by (simp add: finalizing_def finished_def recorder_stopped_def stop_callback_def)
  then show ?thesis ..
qed

lemma finished_step:
  assumes "finished cl s0 s"
  shows "export_step e s = s"
  using assms by (cases e) (simp_all add: finished_def recording_frame_def recorder_stopped_def)

lemma finished_run: "finished cl s0 s \<Longrightarrow> export_run es s = s"
  by (induction es) (simp_all add: finished_step)

lemma export_run_phase:
  "capturing cl s0 s \<or> finalizing cl s0 s \<or> finished cl s0 s \<Longrightarrow>
   capturing cl s0 (export_run es s) \<or> finalizing cl s0 (export_run es s)
     \<or> finished cl s0 (export_run es s)"
proof (induction es arbitrary: s)
  case Nil
  then show ?case by simp
next
  case (Cons e es)
  from Cons.prems have "capturing cl s0 (export_step e s) \<or> finalizing cl s0 (export_step e s)
      \<or> finished cl s0 (export_step e s)"
    using capturing_step [of cl s0 s e] finalizing_step [of cl s0 s e] finished_step [of cl s0 s e]
    by auto
  from Cons.IH [OF this] show ?case by simp
qed

lemma export_run_append: "export_run (es @ fs) s = export_run fs (export_run es s)"
  by (induction es arbitrary: s) simp_all

lemma export_completes:
  assumes "capturing (y0, t0) s0 s \<or> finalizing (y0, t0) s0 s \<or> finished (y0, t0) s0 s"
    and "5000 \<le> later - t0"
  shows "finished (y0, t0) s0 (export_run [Frame later, StopDone] s)"
proof -
  consider "capturing (y0, t0) s0 s" | "finalizing (y0, t0) s0 s" | "finished (y0, t0) s0 s"
    using assms(1) by blast
  then show ?thesis
  proof cases
    case 1
    then have none: "(meshRef s = None) = (meshRef s0 = None)"
      by (cases "meshRef s"; cases "meshRef s0") (simp_all add: capturing_def)
    from 1 assms(2) none have "finalizing (y0, t0) s0 (recording_frame later s)"
      by (cases "meshRef s"; cases "meshRef s0")
        (simp_all add: capturing_def finalizing_def recording_frame_def animateRecording_def
          Let_def is_recording_def duration_def stopRecordingAndDownload_def)
    then show ?thesis
      by (simp add: finalizing_def finished_def recorder_stopped_def stop_callback_def)
  next
    case 2
    then have "recording_frame later s = s" by (simp add: finalizing_def recording_frame_def)
    with 2 show ?thesis
      by (simp add: finalizing_def finished_def recorder_stopped_def stop_callback_def)
  next
    case 3
    from finished_run [OF 3, of "[Frame later, StopDone]"] 3 show ?thesis by simp
  qed
qed

lemma recording_canvas_eq:
  "recording_canvas =
    (set_rotation_y 0
       (example_canvas\<lparr>export_signals := export_signals example_canvas @ [True],
           isRecording := True, recorderRef := Some \<lparr>rstate = Recording\<rparr>\<rparr>))
      \<lparr>recording_tick := Some (0, 1000)\<rparr>"
proof -
  from example_canvas_rotation obtain m where m: "meshRef example_canvas = Some m" "rotation_y m = 0"
    by auto
  have "(1000 :: int) - 1000 < 5000" by simp
  from startRecording_early [OF example_canvas_refs(1-3) this] m
  show ?thesis by (simp add: recording_canvas_def)
qed

lemma recording_canvas_facts:
  "recorderRef recording_canvas = Some \<lparr>rstate = Recording\<rparr>"
  "recording_tick recording_canvas = Some (0, 1000)"
  "map_option rotation_y (meshRef recording_canvas) = Some 0"
  "stop_pending recording_canvas = 0"
  "downloads recording_canvas = []"
  "export_signals recording_canvas = [True]"
  "isRecording recording_canvas"
  using example_canvas_rotation example_canvas_idle
  by (auto simp: recording_canvas_eq export_idle_def example_canvas_def rebuild_def
      start_rebuild_def mount_def initial_canvas_def)

theorem animateRecording_rotation_witness:
  "map_option rotation_y (meshRef (recording_frame 3500 recording_canvas)) = Some pi
   \<and> recording_tick (recording_frame 3500 recording_canvas) = Some (0, 1000)
   \<and> map_option rotation_y (meshRef (recording_frame 6000 recording_canvas)) = Some 0
   \<and> recording_tick (recording_frame 6000 recording_canvas) = None"
proof -
  have r: "is_recording \<lparr>rstate = Recording\<rparr>" by (simp add: is_recording_def)
  from recording_canvas_facts(3) obtain m where m: "meshRef recording_canvas = Some m" by auto
  from animateRecording_rotation [OF recording_canvas_facts(1) r recording_canvas_facts(2), of 3500]
    animateRecording_rotation [OF recording_canvas_facts(1) r recording_canvas_facts(2), of 6000]
  show ?thesis by (simp add: m)
qed

text \<open>
  C5: an export started from an idle component, followed by any sequence of frame
  callbacks and recorder reports. While the recorder ref is set, nothing has been
  downloaded and the host has been told \<open>true\<close> and nothing else. Once the session has
  stopped and the ref is null, there is exactly one more download than before the
  export, the signals sent are \<open>true\<close> then \<open>false\<close>, the recording flag is off, nothing
  is pending, the yaw of the mesh is what it was before the export, and further events
  change nothing. A frame at or after 5000 ms and the recorder's report always bring
  the session to that end.
\<close>

theorem export_session_once:
  assumes "export_idle s" and "rendererRef s \<noteq> None" and "sceneRef s \<noteq> None"
    and "cameraRef s \<noteq> None"
  shows "(recorderRef (export_run evs (startRecording startTime now s)) = None \<longrightarrow>
            downloads (export_run evs (startRecording startTime now s))
              = downloads s @ [''depthvision_animation.webm'']
          \<and> export_signals (export_run evs (startRecording startTime now s))
              = export_signals s @ [True, False]
          \<and> \<not> isRecording (export_run evs (startRecording startTime now s))
          \<and> stop_pending (export_run evs (startRecording startTime now s)) = 0
          \<and> recording_tick (export_run evs (startRecording startTime now s)) = None
          \<and> map_option rotation_y (meshRef (export_run evs (startRecording startTime now s)))
              = map_option rotation_y (meshRef s)
          \<and> export_run rest (export_run evs (startRecording startTime now s))
              = export_run evs (startRecording startTime now s))
     \<and> (recorderRef (export_run evs (startRecording startTime now s)) \<noteq> None \<longrightarrow>
            downloads (export_run evs (startRecording startTime now s)) = downloads s
          \<and> export_signals (export_run evs (startRecording startTime now s))
              = export_signals s @ [True]
          \<and> isRecording (export_run evs (startRecording startTime now s))
          \<and> stop_pending (export_run evs (startRecording startTime now s)) \<le> 1)
     \<and> (5000 \<le> later - startTime \<longrightarrow>
            recorderRef (export_run (evs @ [Frame later, StopDone])
              (startRecording startTime now s)) = None)"
proof -
  let ?y0 = "case meshRef s of None \<Rightarrow> 0 | Some m \<Rightarrow> rotation_y m"
  let ?cl = "(?y0, startTime)"
  let ?s' = "export_run evs (startRecording startTime now s)"
  have y0: "map_option (\<lambda>m. fst ?cl) (meshRef s) = map_option rotation_y (meshRef s)"
    by (cases "meshRef s") simp_all
  from startRecording_phase [OF assms, of startTime now]
  have "capturing ?cl s (startRecording startTime now s)
      \<or> finalizing ?cl s (startRecording startTime now s)
      \<or> finished ?cl s (startRecording startTime now s)"
    by blast
  from export_run_phase [OF this, of evs]
  have ph: "capturing ?cl s ?s' \<or> finalizing ?cl s ?s' \<or> finished ?cl s ?s'" .
  have stopped: "finished ?cl s ?s'" if "recorderRef ?s' = None"
    using ph that by (auto simp: capturing_def finalizing_def)
  have running: "capturing ?cl s ?s' \<or> finalizing ?cl s ?s'" if "recorderRef ?s' \<noteq> None"
    using ph that by (auto simp: finished_def)
  have a: "downloads ?s' = downloads s @ [''depthvision_animation.webm'']
      \<and> export_signals ?s' = export_signals s @ [True, False]
      \<and> \<not> isRecording ?s' \<and> stop_pending ?s' = 0 \<and> recording_tick ?s' = None
      \<and> map_option rotation_y (meshRef ?s') = map_option rotation_y (meshRef s)
      \<and> export_run rest ?s' = ?s'" if "recorderRef ?s' = None"
    using stopped [OF that] finished_run [OF stopped [OF that], of rest] y0
    by (simp add: finished_def)
  have b: "downloads ?s' = downloads s \<and> export_signals ?s' = export_signals s @ [True]
      \<and> isRecording ?s' \<and> stop_pending ?s' \<le> 1" if "recorderRef ?s' \<noteq> None"
    using running [OF that] by (auto simp: capturing_def finalizing_def)
  have c: "recorderRef (export_run (evs @ [Frame later, StopDone])
      (startRecording startTime now s)) = None" if "5000 \<le> later - startTime"
    using export_completes [OF ph that] by (simp add: export_run_append finished_def)
  from a b c show ?thesis by blast
qed

theorem export_session_once_witness:
  "recorderRef (export_run [Frame 1016, Frame 3500, Frame 6000, StopDone]
      (startRecording 1000 1000 example_canvas)) = None
   \<and> downloads (export_run [Frame 1016, Frame 3500, Frame 6000, StopDone]
      (startRecording 1000 1000 example_canvas)) = [''depthvision_animation.webm'']
   \<and> export_signals (export_run [Frame 1016, Frame 3500, Frame 6000, StopDone]
      (startRecording 1000 1000 example_canvas)) = [True, False]
   \<and> map_option rotation_y (meshRef (export_run [Frame 1016, Frame 3500, Frame 6000, StopDone]
      (startRecording 1000 1000 example_canvas))) = Some 0
   \<and> export_run [Frame 6016, StopDone]
        (export_run [Frame 1016, Frame 3500, Frame 6000, StopDone]
          (startRecording 1000 1000 example_canvas))
      = export_run [Frame 1016, Frame 3500, Frame 6000, StopDone]
          (startRecording 1000 1000 example_canvas)"
proof -
  let ?run = "[Frame 1016, Frame 3500, Frame 6000, StopDone]"
  have i: "downloads example_canvas = []" "export_signals example_canvas = []"
    by (simp_all add: example_canvas_def rebuild_def start_rebuild_def mount_def initial_canvas_def)
  from export_session_once [OF example_canvas_idle example_canvas_refs(1-3),
      of "[Frame 1016, Frame 3500]" 1000 1000 "[]" 6000]
  have n: "recorderRef (export_run ?run (startRecording 1000 1000 example_canvas)) = None"
    by simp
  from export_session_once [OF example_canvas_idle example_canvas_refs(1-3),
      of ?run 1000 1000 "[Frame 6016, StopDone]" 6000] n
  show ?thesis by (simp add: i example_canvas_rotation)
qed

subsection \<open>Input changes and unmounting during an export\<close>

lemma unmount_frame [simp]:
  "recorderRef (unmount s) = recorderRef s"
  "recording_tick (unmount s) = recording_tick s"
  "stop_pending (unmount s) = stop_pending s"
  "downloads (unmount s) = downloads s"
  "export_signals (unmount s) = export_signals s"
  "isRecording (unmount s) = isRecording s"
  "rendererRef (unmount s) = rendererRef s"
  "sceneRef (unmount s) = sceneRef s"
  "cameraRef (unmount s) = cameraRef s"
  "controlsRef (unmount s) = controlsRef s"
  "meshRef (unmount s) = meshRef s"
  "gpu_live (unmount s) = gpu_live s"
  "animate_pending (unmount s) = animate_pending s"
  "frames (unmount s) = frames s"
  "mountRef (unmount s) = None"
  by (simp_all add: unmount_def)

text \<open>A running session ends with its download when the duration has passed.\<close>

lemma recording_runs_out:
  assumes "recorderRef s = Some r" and "is_recording r"
    and "recording_tick s = Some (y0, t0)" and "stop_pending s = 0" and "5000 \<le> now - t0"
  shows "recorderRef (recorder_stopped (recording_frame now s)) = None"
    and "downloads (recorder_stopped (recording_frame now s))
           = downloads s @ [''depthvision_animation.webm'']"
    and "export_signals (recorder_stopped (recording_frame now s)) = export_signals s @ [False]"
    and "\<not> isRecording (recorder_stopped (recording_frame now s))"
  using assms
  by (simp_all add: recording_frame_def animateRecording_def Let_def duration_def
      stopRecordingAndDownload_def recorder_stopped_def stop_callback_def)

text \<open>
  C6, as the code has it: a change of the inputs or an unmount during a recording does
  not touch the session. The recorder ref, its recording state, the scheduled callback,
  the downloads, the signals and the recording flag are as before; the recording runs
  on, and at the first frame at or after 5000 ms it stops, the whole recording is
  downloaded once and the host is told \<open>false\<close>.
\<close>

theorem recording_survives_teardown:
  assumes "recorderRef s = Some r" and "is_recording r"
    and "recording_tick s = Some (y0, t0)" and "stop_pending s = 0" and "5000 \<le> now - t0"
  shows "recorderRef (set_inputs a b s) = Some r \<and> recorderRef (unmount s) = Some r
    \<and> recording_tick (set_inputs a b s) = Some (y0, t0)
    \<and> recording_tick (unmount s) = Some (y0, t0)
    \<and> downloads (set_inputs a b s) = downloads s \<and> downloads (unmount s) = downloads s
    \<and> export_signals (set_inputs a b s) = export_signals s
    \<and> export_signals (unmount s) = export_signals s
    \<and> isRecording (set_inputs a b s) = isRecording s
    \<and> isRecording (unmount s) = isRecording s
    \<and> downloads (recorder_stopped (recording_frame now (set_inputs a b s)))
         = downloads s @ [''depthvision_animation.webm'']
    \<and> downloads (recorder_stopped (recording_frame now (unmount s)))
         = downloads s @ [''depthvision_animation.webm'']
    \<and> export_signals (recorder_stopped (recording_frame now (set_inputs a b s)))
         = export_signals s @ [False]
    \<and> export_signals (recorder_stopped (recording_frame now (unmount s)))
         = export_signals s @ [False]
    \<and> recorderRef (recorder_stopped (recording_frame now (set_inputs a b s))) = None
    \<and> recorderRef (recorder_stopped (recording_frame now (unmount s))) = None"
proof -
  have i: "recorderRef (set_inputs a b s) = Some r" "recording_tick (set_inputs a b s) = Some (y0, t0)"
    "stop_pending (set_inputs a b s) = 0"
    using assms by simp_all
  have u: "recorderRef (unmount s) = Some r" "recording_tick (unmount s) = Some (y0, t0)"
    "stop_pending (unmount s) = 0"
    using assms by simp_all
  from recording_runs_out [OF i(1) assms(2) i(2,3) assms(5)]
    recording_runs_out [OF u(1) assms(2) u(2,3) assms(5)] i u
  show ?thesis by simp
qed

theorem recording_survives_teardown_witness:
  "recorderRef (set_inputs None None recording_canvas) = Some \<lparr>rstate = Recording\<rparr>
   \<and> recording_tick (set_inputs None None recording_canvas) = Some (0, 1000)
   \<and> downloads (recorder_stopped (recording_frame 6000 (set_inputs None None recording_canvas)))
        = [''depthvision_animation.webm'']
   \<and> export_signals (recorder_stopped (recording_frame 6000 (set_inputs None None recording_canvas)))
        = [True, False]"
proof -
  have r: "is_recording \<lparr>rstate = Recording\<rparr>" by (simp add: is_recording_def)
  have l: "(5000 :: int) \<le> 6000 - 1000" by simp
  from recording_survives_teardown [OF recording_canvas_facts(1) r recording_canvas_facts(2,4) l,
      of None None]
  show ?thesis by (simp add: recording_canvas_facts)
qed

text \<open>
  The component is unmounted while the export of the example mesh is recording. The
  recorder still records, the next callback is still scheduled, the recording flag is
  on and the host has only been told \<open>true\<close>; the session is not torn down. At clock
  6000 it stops in the usual way and the file is downloaded.
\<close>

theorem unmount_keeps_recording:
  "recorderRef (unmount recording_canvas) = Some \<lparr>rstate = Recording\<rparr>
   \<and> recording_tick (unmount recording_canvas) = Some (0, 1000)
   \<and> isRecording (unmount recording_canvas)
   \<and> export_signals (unmount recording_canvas) = [True]
   \<and> downloads (recorder_stopped (recording_frame 6000 (unmount recording_canvas)))
        = [''depthvision_animation.webm'']"
proof -
  have r: "is_recording \<lparr>rstate = Recording\<rparr>" by (simp add: is_recording_def)
  have u: "recorderRef (unmount recording_canvas) = Some \<lparr>rstate = Recording\<rparr>"
    "recording_tick (unmount recording_canvas) = Some (0, 1000)"
    "stop_pending (unmount recording_canvas) = 0"
    by (simp_all add: recording_canvas_facts)
  have l: "(5000 :: int) \<le> 6000 - 1000" by simp
  from recording_runs_out(2) [OF u(1) r u(2,3) l] u
  show ?thesis by (simp add: recording_canvas_facts)
qed

subsection \<open>Unmounting\<close>

lemma load_resolved_loop [simp]:
  "animate_pending (load_resolved im dm s) = animate_pending s"
  "resize_listeners (load_resolved im dm s) = resize_listeners s"
  "has_cleanup (load_resolved im dm s) = has_cleanup s"
  by (cases "sceneRef s";
      simp add: load_resolved_def new_texture_def then_handler_def Let_def
        new_PlaneGeometry_def new_MeshStandardMaterial_def new_Mesh_def catch_handler_def)+

lemma loading_canvas_loop:
  "animate_pending loading_canvas = 1" "resize_listeners loading_canvas = 1"
  "has_cleanup loading_canvas"
  by (simp_all add: loading_canvas_def start_rebuild_def set_inputs_def effect_run_def
      effect_cleanup_def example_pair_def truthy_def mount_def initial_canvas_def Let_def
      init_three_def animate_def)

lemma example_canvas_loop:
  "animate_pending example_canvas = 1" "resize_listeners example_canvas = 1"
  "has_cleanup example_canvas"
  using loading_canvas_loop
  by (simp_all add: example_canvas_def rebuild_def loading_canvas_def)

text \<open>
  C7 at a concrete unmount: the component has built the example mesh and is unmounted.
  The resize listener is removed. The renderer, the controls and the scene are still
  in their refs, the mesh is still in its ref and in the scene, its four GPU resources
  are still live, and the render loop still has its callback scheduled: the next
  animation frame renders once more and schedules the one after.
\<close>

theorem unmount_releases_nothing:
  "resize_listeners (unmount example_canvas) = 0
   \<and> rendererRef (unmount example_canvas) \<noteq> None
   \<and> controlsRef (unmount example_canvas) \<noteq> None
   \<and> sceneRef (unmount example_canvas) \<noteq> None
   \<and> meshRef (unmount example_canvas) \<noteq> None
   \<and> scene_meshes (unmount example_canvas) \<noteq> []
   \<and> gpu_count (unmount example_canvas) = 4
   \<and> animate_pending (unmount example_canvas) = 1
   \<and> animate_pending (animation_frame (unmount example_canvas)) = 1
   \<and> frames (animation_frame (unmount example_canvas)) = Suc (frames (unmount example_canvas))"
proof -
  let ?u = "unmount example_canvas"
  have rl: "resize_listeners ?u = 0"
    using example_canvas_loop by (simp add: unmount_def effect_cleanup_def)
  have refs: "rendererRef ?u \<noteq> None" "controlsRef ?u \<noteq> None" "sceneRef ?u \<noteq> None"
    "cameraRef ?u \<noteq> None" "meshRef ?u \<noteq> None"
    using example_canvas_refs example_canvas_tidy(3) by simp_all
  have sm: "scene_meshes ?u = scene_meshes example_canvas"
    by (rule scene_meshes_cong) simp
  have "scene_meshes example_canvas \<noteq> []"
    using example_canvas_tidy(1,3) by (auto simp: tidy_def mesh_attached_def)
  with sm have meshes: "scene_meshes ?u \<noteq> []" by simp
  have "gpu_count example_canvas = 4"
    using rebuild_tidy [OF tidy_mounted_initial valid_examples(1), of "(800, 600)"]
    by (simp add: example_canvas_def)
  then have g: "gpu_count ?u = 4" by (simp add: gpu_count_def)
  have ap: "animate_pending ?u = 1" by (simp add: example_canvas_loop)
  have fr: "animate_pending (animation_frame ?u) = 1
      \<and> frames (animation_frame ?u) = Suc (frames ?u)"
  proof -
    let ?v = "?u\<lparr>animate_pending := animate_pending ?u - 1\<rparr>"
    have step: "animation_frame ?u = animate ?v"
      using ap by (simp add: animation_frame_def)
    have v: "rendererRef ?v \<noteq> None" "sceneRef ?v \<noteq> None" "cameraRef ?v \<noteq> None"
      "controlsRef ?v \<noteq> None"
      using refs by simp_all
    have run: "animate ?v = render (update_controls (?v\<lparr>animate_pending := Suc (animate_pending ?v)\<rparr>))"
      using v unfolding animate_def by (simp only: if_False HOL.simp_thms)
    show ?thesis
      unfolding step run using ap by (simp add: render_def)
  qed
  from rl refs meshes g ap fr show ?thesis by simp
qed

subsection \<open>Rebuilds that overlap\<close>

lemma start_rebuild_while_loading:
  assumes "meshRef s = None" and "mountRef s \<noteq> None" and "rendererRef s \<noteq> None"
    and "valid_pair p"
  shows "gpu_live (start_rebuild p s) = gpu_live s"
    and "pending_loads (start_rebuild p s) = Suc (pending_loads s)"
    and "sceneRef (start_rebuild p s) = sceneRef s"
    and "meshRef (start_rebuild p s) = None"
  using assms
  by (auto simp: start_rebuild_def set_inputs_def effect_run_def truthy_def valid_pair_def
      Let_def cleanupScene_no_mesh)

text \<open>
  Outside the sequential case: the inputs change while the loads of the first pair are
  still in flight, and both joins then resolve. The second handler overwrites the mesh
  ref without a cleanup in between, so two meshes are in the scene and eight resources
  are live.
\<close>

lemma overlapping_rebuilds_keep_both:
  "gpu_count (load_resolved (1024, 1024) (512, 512)
       (load_resolved (1920, 1080) (1920, 1080) (start_rebuild second_pair loading_canvas))) = 8
   \<and> length (scene_meshes (load_resolved (1024, 1024) (512, 512)
       (load_resolved (1920, 1080) (1920, 1080) (start_rebuild second_pair loading_canvas)))) = 2"
proof -
  let ?s1 = "start_rebuild second_pair loading_canvas"
  let ?s2 = "load_resolved (1920, 1080) (1920, 1080) ?s1"
  let ?s3 = "load_resolved (1024, 1024) (512, 512) ?s2"
  have lc: "loading_clean loading_canvas"
    unfolding loading_canvas_def
    by (rule start_rebuild_clean [OF tidy_mounted_initial(1) _ valid_examples(1)])
      (simp add: mount_def)
  then have l: "meshRef loading_canvas = None" "mountRef loading_canvas \<noteq> None"
    "rendererRef loading_canvas \<noteq> None" "gpu_live loading_canvas = []"
    "pending_loads loading_canvas = 1" "sceneRef loading_canvas \<noteq> None"
    "scene_meshes loading_canvas = []"
    by (simp_all add: loading_clean_def)
  note s1 = start_rebuild_while_loading [OF l(1-3) valid_examples(2)]
  have p1: "pending_loads ?s1 \<noteq> 0" by (simp add: s1(2))
  have sm1: "scene_meshes ?s1 = []"
    using scene_meshes_cong [OF s1(3)] l(7) by simp
  have sc1: "sceneRef ?s1 \<noteq> None" using s1(3) l(6) by simp
  from load_resolved_result [OF p1, of "(1920, 1080)" "(1920, 1080)"] obtain m1 where
    m1: "sceneRef ?s2 = map_option (scene_add (MeshObject m1)) (sceneRef ?s1)" by blast
  have g2: "length (gpu_live ?s2) = 4"
    using gpu_live_load_resolved [OF p1] s1(1) l(4) by simp
  have sm2: "scene_meshes ?s2 = [m1]"
    using scene_meshes_add [OF m1 sc1] sm1 by simp
  have sc2: "sceneRef ?s2 \<noteq> None" using m1 sc1 by simp
  have p2: "pending_loads ?s2 \<noteq> 0"
    by (simp add: pending_loads_load_resolved s1(2) l(5))
  from load_resolved_result [OF p2, of "(1024, 1024)" "(512, 512)"] obtain m2 where
    m2: "sceneRef ?s3 = map_option (scene_add (MeshObject m2)) (sceneRef ?s2)" by blast
  have g3: "length (gpu_live ?s3) = 8"
    using gpu_live_load_resolved [OF p2] g2 by simp
  have sm3: "scene_meshes ?s3 = [m1, m2]"
    using scene_meshes_add [OF m2 sc2] sm2 by simp
  from g3 sm3 show ?thesis by (simp add: gpu_count_def)
qed

end
